theory Spec2Isabelle
  imports Complex_Main
begin

section \<open>The annotation editor of the case sheet (CaseAnnotations)\<close>

text \<open>
  This theory embeds the annotation editing engine of the \<^verbatim>\<open>CaseAnnotations\<close> component
  (the version of the component with hit testing, dragging and resizing) and verifies the
  properties its specification states.

  Conventions of the embedding.
  \<^item> A JavaScript number is a \<open>jsnum\<close>: a finite number, one of the two infinities, or NaN.
    A finite number is a \<^typ>\<open>real\<close>: rounding and overflow of IEEE doubles are not
    modelled, and the two zeros are one. What the browser reports (the client position of
    the pointer, the bounding rectangles) and the stroke size are finite.
  \<^item> The React state of the component (the \<^verbatim>\<open>useState\<close> cells, the \<^verbatim>\<open>dragRef\<close> and the
    \<^verbatim>\<open>annotations\<close> and \<^verbatim>\<open>baseImage\<close> props, which the parent stores with \<^verbatim>\<open>setAnnotations\<close>
    and \<^verbatim>\<open>setBaseImage\<close>) is one record; every handler is a function from the state before
    the event to the state after it. The component is rendered anew between two events, so
    a handler reads the values of the state before its event.
  \<^item> The geometry of the page (the two \<^verbatim>\<open>getBoundingClientRect()\<close> results) and the identifier
    drawn from \<^verbatim>\<open>Date.now()\<close> and \<^verbatim>\<open>Math.random()\<close> are inputs of the event.
\<close>

subsection \<open>Numbers\<close>

datatype jsnum = Fin real | PosInf | NegInf | NaN

text \<open>The unary minus and \<^verbatim>\<open>a + b\<close>, \<^verbatim>\<open>a - b\<close>, \<^verbatim>\<open>a * b\<close>.\<close>

fun js_neg :: "jsnum \<Rightarrow> jsnum" where
  "js_neg (Fin a) = Fin (- a)"
| "js_neg PosInf = NegInf"
| "js_neg NegInf = PosInf"
| "js_neg NaN = NaN"

fun js_add :: "jsnum \<Rightarrow> jsnum \<Rightarrow> jsnum" where
  "js_add NaN b = NaN"
| "js_add a NaN = NaN"
| "js_add (Fin a) (Fin b) = Fin (a + b)"
| "js_add PosInf NegInf = NaN"
| "js_add NegInf PosInf = NaN"
| "js_add PosInf b = PosInf"
| "js_add a PosInf = PosInf"
| "js_add NegInf b = NegInf"
| "js_add a NegInf = NegInf"

fun js_sub :: "jsnum \<Rightarrow> jsnum \<Rightarrow> jsnum" where
  "js_sub a b = js_add a (js_neg b)"

fun js_mul :: "jsnum \<Rightarrow> jsnum \<Rightarrow> jsnum" where
  "js_mul NaN b = NaN"
| "js_mul a NaN = NaN"
| "js_mul (Fin a) (Fin b) = Fin (a * b)"
| "js_mul (Fin a) PosInf = (if a = 0 then NaN else if 0 < a then PosInf else NegInf)"
| "js_mul (Fin a) NegInf = (if a = 0 then NaN else if 0 < a then NegInf else PosInf)"
| "js_mul PosInf (Fin b) = (if b = 0 then NaN else if 0 < b then PosInf else NegInf)"
| "js_mul NegInf (Fin b) = (if b = 0 then NaN else if 0 < b then NegInf else PosInf)"
| "js_mul PosInf PosInf = PosInf"
| "js_mul PosInf NegInf = NegInf"
| "js_mul NegInf PosInf = NegInf"
| "js_mul NegInf NegInf = PosInf"

text \<open>
  \<^verbatim>\<open>a / b\<close>. A divisor zero is the positive zero (a width or height of a \<^verbatim>\<open>DOMRect\<close>, or a
  sum of squares).
\<close>

fun js_div :: "jsnum \<Rightarrow> jsnum \<Rightarrow> jsnum" where
  "js_div NaN b = NaN"
| "js_div a NaN = NaN"
| "js_div (Fin a) (Fin b) =
     (if b \<noteq> 0 then Fin (a / b)
      else if a = 0 then NaN
      else if 0 < a then PosInf
      else NegInf)"
| "js_div (Fin a) b = Fin 0"
| "js_div PosInf (Fin b) = (if 0 \<le> b then PosInf else NegInf)"
| "js_div NegInf (Fin b) = (if 0 \<le> b then NegInf else PosInf)"
| "js_div a b = NaN"

text \<open>\<^verbatim>\<open>Math.min(a, b)\<close> and \<^verbatim>\<open>Math.max(a, b)\<close>: NaN is contagious.\<close>

fun js_min :: "jsnum \<Rightarrow> jsnum \<Rightarrow> jsnum" where
  "js_min NaN b = NaN"
| "js_min a NaN = NaN"
| "js_min NegInf b = NegInf"
| "js_min a NegInf = NegInf"
| "js_min PosInf b = b"
| "js_min a PosInf = a"
| "js_min (Fin a) (Fin b) = Fin (min a b)"

fun js_max :: "jsnum \<Rightarrow> jsnum \<Rightarrow> jsnum" where
  "js_max NaN b = NaN"
| "js_max a NaN = NaN"
| "js_max PosInf b = PosInf"
| "js_max a PosInf = PosInf"
| "js_max NegInf b = b"
| "js_max a NegInf = a"
| "js_max (Fin a) (Fin b) = Fin (max a b)"

text \<open>\<^verbatim>\<open>Math.pow(a, 2)\<close>, \<^verbatim>\<open>Math.abs(a)\<close>, \<^verbatim>\<open>Math.sqrt(a)\<close> and \<^verbatim>\<open>Math.hypot(a, b)\<close>.\<close>

fun js_pow2 :: "jsnum \<Rightarrow> jsnum" where
  "js_pow2 (Fin a) = Fin (a\<^sup>2)"
| "js_pow2 PosInf = PosInf"
| "js_pow2 NegInf = PosInf"
| "js_pow2 NaN = NaN"

fun js_abs :: "jsnum \<Rightarrow> jsnum" where
  "js_abs (Fin a) = Fin \<bar>a\<bar>"
| "js_abs PosInf = PosInf"
| "js_abs NegInf = PosInf"
| "js_abs NaN = NaN"

definition js_sqrt :: "jsnum \<Rightarrow> jsnum" where
  "js_sqrt v =
     (case v of
        Fin a \<Rightarrow> if a < 0 then NaN else Fin (sqrt a)
      | PosInf \<Rightarrow> PosInf
      | NegInf \<Rightarrow> NaN
      | NaN \<Rightarrow> NaN)"

definition js_hypot :: "jsnum \<Rightarrow> jsnum \<Rightarrow> jsnum" where
  "js_hypot a b =
     (if a = PosInf \<or> a = NegInf \<or> b = PosInf \<or> b = NegInf then PosInf
      else
        (case (a, b) of
           (Fin x, Fin y) \<Rightarrow> Fin (sqrt (x * x + y * y))
         | _ \<Rightarrow> NaN))"

text \<open>
  The comparisons \<^verbatim>\<open>a < b\<close> and \<^verbatim>\<open>a <= b\<close>, false when an operand is NaN (\<^verbatim>\<open>a > b\<close> is
  \<open>js_lt b a\<close> and \<^verbatim>\<open>a >= b\<close> is \<open>js_le b a\<close>).
\<close>

fun js_lt :: "jsnum \<Rightarrow> jsnum \<Rightarrow> bool" where
  "js_lt NaN b = False"
| "js_lt a NaN = False"
| "js_lt (Fin a) (Fin b) = (a < b)"
| "js_lt PosInf b = False"
| "js_lt a NegInf = False"
| "js_lt a b = True"

fun js_le :: "jsnum \<Rightarrow> jsnum \<Rightarrow> bool" where
  "js_le NaN b = False"
| "js_le a NaN = False"
| "js_le (Fin a) (Fin b) = (a \<le> b)"
| "js_le NegInf b = True"
| "js_le a PosInf = True"
| "js_le a b = False"

text \<open>\<^verbatim>\<open>function clamp(v, min, max) { return Math.max(min, Math.min(max, v)); }\<close>\<close>

definition clamp :: "jsnum \<Rightarrow> jsnum \<Rightarrow> jsnum \<Rightarrow> jsnum" where
  "clamp v mn mx = js_max mn (js_min mx v)"

text \<open>
  A string or \<^verbatim>\<open>null\<close>/\<^verbatim>\<open>undefined\<close> in a condition (\<^verbatim>\<open>if (hitId)\<close>, \<^verbatim>\<open>if (!selectedId)\<close>,
  \<^verbatim>\<open>if (!baseImage)\<close>): the empty string is falsy too.
\<close>

fun truthy :: "string option \<Rightarrow> bool" where
  "truthy None = False"
| "truthy (Some s) = (s \<noteq> [])"

subsection \<open>Page geometry and coordinate conversion\<close>

text \<open>A \<^verbatim>\<open>DOMRect\<close>, as far as the component reads it.\<close>

record domrect =
  rleft :: real
  rtop :: real
  rwidth :: real
  rheight :: real

text \<open>
  What the two refs give at the time of an event: \<open>cont\<close> is
  \<^verbatim>\<open>containerRef.current?.getBoundingClientRect()\<close> and \<open>img\<close> is
  \<^verbatim>\<open>imgRef.current?.getBoundingClientRect()\<close>; \<open>None\<close> when the ref is \<^verbatim>\<open>null\<close>.
\<close>

record layout =
  cont :: "domrect option"
  img :: "domrect option"

definition imageDims :: "layout \<Rightarrow> domrect" where
  "imageDims L =
     (case (img L, cont L) of
        (Some imgRect, Some rect) \<Rightarrow>
          \<lparr>rleft = rleft imgRect - rleft rect, rtop = rtop imgRect - rtop rect,
           rwidth = rwidth imgRect, rheight = rheight imgRect\<rparr>
      | _ \<Rightarrow> \<lparr>rleft = 0, rtop = 0, rwidth = 1, rheight = 1\<rparr>)"

definition toNorm :: "layout \<Rightarrow> real \<Rightarrow> real \<Rightarrow> jsnum \<times> jsnum" where
  "toNorm L clientX clientY =
     (case cont L of
        None \<Rightarrow> (Fin 0, Fin 0)
      | Some rect \<Rightarrow>
          (let x = clientX - rleft rect;
               y = clientY - rtop rect;
               d = imageDims L
           in (js_max (Fin 0) (js_min (Fin 1) (js_div (Fin (x - rleft d)) (Fin (rwidth d)))),
               js_max (Fin 0) (js_min (Fin 1) (js_div (Fin (y - rtop d)) (Fin (rheight d)))))))"

text \<open>A point \<^verbatim>\<open>{ x, y }\<close>.\<close>

type_synonym point = "jsnum \<times> jsnum"

definition fromNorm :: "layout \<Rightarrow> jsnum \<Rightarrow> jsnum \<Rightarrow> point" where
  "fromNorm L x y =
     (let d = imageDims L
      in (js_add (Fin (rleft d)) (js_mul x (Fin (rwidth d))),
          js_add (Fin (rtop d)) (js_mul y (Fin (rheight d)))))"

text \<open>A coordinate in the unit interval.\<close>

fun in_unit :: "jsnum \<Rightarrow> bool" where
  "in_unit (Fin v) = (0 \<le> v \<and> v \<le> 1)"
| "in_unit _ = False"

subsection \<open>Annotations\<close>

text \<open>
  \<^verbatim>\<open>BaseAnnotation\<close>: the fields \<^verbatim>\<open>id\<close>, \<^verbatim>\<open>color\<close>, \<^verbatim>\<open>size\<close>, \<^verbatim>\<open>linkedFieldId?\<close> (the field
  \<^verbatim>\<open>type\<close> is the constructor of \<open>annotation\<close>).
\<close>

record base =
  ann_id :: string
  ann_color :: string
  ann_size :: real
  linkedFieldId :: "string option"

datatype annotation =
    PenAnnotation base "point list" "real option"
  | RectAnnotation base jsnum jsnum jsnum jsnum
  | ArrowAnnotation base jsnum jsnum jsnum jsnum
  | TextAnnotation base jsnum jsnum string

text \<open>
  \<open>PenAnnotation b points opacity\<close>, \<open>RectAnnotation b x y width height\<close>,
  \<open>ArrowAnnotation b x1 y1 x2 y2\<close>, \<open>TextAnnotation b x y text\<close>.
\<close>

fun base_of :: "annotation \<Rightarrow> base" where
  "base_of (PenAnnotation b ps opacity) = b"
| "base_of (RectAnnotation b x y w h) = b"
| "base_of (ArrowAnnotation b x1 y1 x2 y2) = b"
| "base_of (TextAnnotation b x y t) = b"

definition id_of :: "annotation \<Rightarrow> string" where
  "id_of a = ann_id (base_of a)"

datatype tool = SelectTool | PenTool | RectTool | ArrowTool | TextTool | EraseTool

subsection \<open>Hit testing\<close>

definition distanceToLine :: "jsnum \<Rightarrow> jsnum \<Rightarrow> jsnum \<Rightarrow> jsnum \<Rightarrow> jsnum \<Rightarrow> jsnum \<Rightarrow> jsnum" where
  "distanceToLine px py x1 y1 x2 y2 =
     (let A = js_sub px x1; B = js_sub py y1; C = js_sub x2 x1; D = js_sub y2 y1;
          dot = js_add (js_mul A C) (js_mul B D);
          lenSq = js_add (js_mul C C) (js_mul D D);
          param = (if lenSq \<noteq> Fin 0 then js_div dot lenSq else Fin (- 1));
          xx = (if js_lt param (Fin 0) then x1
                else if js_lt (Fin 1) param then x2
                else js_add x1 (js_mul param C));
          yy = (if js_lt param (Fin 0) then y1
                else if js_lt (Fin 1) param then y2
                else js_add y1 (js_mul param D));
          dx = js_sub px xx; dy = js_sub py yy
      in js_sqrt (js_add (js_mul dx dx) (js_mul dy dy)))"

definition tolerance :: real where
  "tolerance = 0.02"

text \<open>
  The inner loop over the segments of a pen stroke,
  \<^verbatim>\<open>for (let j = 0; j < a.points.length - 1; j++)\<close>: true when it returns the id.
\<close>

fun pen_hit :: "point \<Rightarrow> point list \<Rightarrow> bool" where
  "pen_hit nrm (p # q # ps) =
     (if js_lt (distanceToLine (fst nrm) (snd nrm) (fst p) (snd p) (fst q) (snd q))
           (Fin tolerance)
      then True else pen_hit nrm (q # ps))"
| "pen_hit nrm ps = False"

text \<open>The body of the outer loop: whether the annotation \<open>a\<close> makes \<^verbatim>\<open>getAnnotationAt\<close> return.\<close>

fun hit :: "point \<Rightarrow> annotation \<Rightarrow> bool" where
  "hit nrm (RectAnnotation b x y w h) =
     (js_le (js_sub x (Fin tolerance)) (fst nrm)
      \<and> js_le (fst nrm) (js_add (js_add x w) (Fin tolerance))
      \<and> js_le (js_sub y (Fin tolerance)) (snd nrm)
      \<and> js_le (snd nrm) (js_add (js_add y h) (Fin tolerance)))"
| "hit nrm (TextAnnotation b x y t) =
     (js_lt (js_abs (js_sub (fst nrm) x)) (Fin tolerance)
      \<and> js_lt (js_abs (js_sub (snd nrm) y)) (Fin tolerance))"
| "hit nrm (ArrowAnnotation b x1 y1 x2 y2) =
     js_lt (distanceToLine (fst nrm) (snd nrm) x1 y1 x2 y2) (Fin tolerance)"
| "hit nrm (PenAnnotation b ps opacity) = pen_hit nrm ps"

text \<open>
  \<^verbatim>\<open>for (let i = annotations.length - 1; i >= 0; i--)\<close>: the second argument of \<open>scan\<close> is
  \<open>i + 1\<close>, so \<open>scan nrm anns 0\<close> is the exit of the loop.
\<close>

fun scan :: "point \<Rightarrow> annotation list \<Rightarrow> nat \<Rightarrow> string option" where
  "scan nrm anns 0 = None"
| "scan nrm anns (Suc i) =
     (if hit nrm (anns ! i) then Some (id_of (anns ! i)) else scan nrm anns i)"

definition getAnnotationAt :: "layout \<Rightarrow> annotation list \<Rightarrow> real \<Rightarrow> real \<Rightarrow> string option" where
  "getAnnotationAt L annotations clientX clientY =
     (let nrm = toNorm L clientX clientY
      in scan nrm annotations (length annotations))"

subsection \<open>The state of the editor\<close>

text \<open>
  The cell \<^verbatim>\<open>drawing\<close>: \<^verbatim>\<open>{ type, startX, startY, points?, currentX?, currentY? }\<close>.
\<close>

record draw_state =
  dtype :: tool
  startX :: jsnum
  startY :: jsnum
  points :: "point list option"
  currentX :: "jsnum option"
  currentY :: "jsnum option"

datatype dragmode = MoveMode | ResizeRect | ArrowStart | ArrowEnd

datatype corner = NW | NE | SW | SE

text \<open>The contents of \<^verbatim>\<open>dragRef.current\<close>: \<^verbatim>\<open>{ mode, id, corner?, prevX, prevY }\<close>.\<close>

record drag =
  mode :: dragmode
  drag_id :: string
  corner :: "corner option"
  prevX :: jsnum
  prevY :: jsnum

text \<open>
  The state: the props \<^verbatim>\<open>baseImage\<close> and \<^verbatim>\<open>annotations\<close>, the cells \<^verbatim>\<open>tool\<close>, \<^verbatim>\<open>color\<close>,
  \<^verbatim>\<open>size\<close>, \<^verbatim>\<open>selectedId\<close>, \<^verbatim>\<open>editingTextId\<close>, \<^verbatim>\<open>drawing\<close>, \<^verbatim>\<open>undoStack\<close>, \<^verbatim>\<open>redoStack\<close>,
  \<^verbatim>\<open>isDragging\<close> and the ref \<^verbatim>\<open>dragRef\<close>. (The cell \<^verbatim>\<open>zoom\<close> only scales the display and is
  left out.) The top of a stack is the last element of its list.
\<close>

record editor =
  baseImage :: "string option"
  annotations :: "annotation list"
  tool :: tool
  cur_color :: string
  cur_size :: real
  selectedId :: "string option"
  editingTextId :: "string option"
  drawing :: "draw_state option"
  undoStack :: "annotation list list"
  redoStack :: "annotation list list"
  isDragging :: bool
  dragRef :: "drag option"

subsection \<open>History\<close>

definition pushHistory :: "annotation list \<Rightarrow> editor \<Rightarrow> editor" where
  "pushHistory next e =
     e\<lparr>undoStack := undoStack e @ [annotations e], redoStack := [], annotations := next\<rparr>"

definition undo :: "editor \<Rightarrow> editor" where
  "undo e =
     (if undoStack e = [] then e
      else
        (let prev = last (undoStack e)
         in e\<lparr>redoStack := redoStack e @ [annotations e],
              annotations := prev,
              undoStack := butlast (undoStack e)\<rparr>))"

definition redo :: "editor \<Rightarrow> editor" where
  "redo e =
     (if redoStack e = [] then e
      else
        (let next = last (redoStack e)
         in e\<lparr>undoStack := undoStack e @ [annotations e],
              annotations := next,
              redoStack := butlast (redoStack e)\<rparr>))"

definition clearAll :: "editor \<Rightarrow> editor" where
  "clearAll e =
     (if annotations e = [] then e
      else (pushHistory [] e)\<lparr>selectedId := None, editingTextId := None\<rparr>)"

definition removeImage :: "editor \<Rightarrow> editor" where
  "removeImage e =
     (pushHistory [] (e\<lparr>baseImage := None\<rparr>))\<lparr>selectedId := None, editingTextId := None\<rparr>"

text \<open>
  The \<^verbatim>\<open>onChange\<close> handler of the file input. Its argument is the data URL that
  \<^verbatim>\<open>dataUrlFromFile\<close> resolves to; \<open>None\<close> when no file was chosen or reading it was rejected
  (the handler returns, or logs the error in its \<^verbatim>\<open>catch\<close>).
\<close>

definition loadImage :: "string option \<Rightarrow> editor \<Rightarrow> editor" where
  "loadImage file e =
     (case file of
        None \<Rightarrow> e
      | Some data \<Rightarrow>
          e\<lparr>baseImage := Some data, annotations := [],
            selectedId := None, editingTextId := None\<rparr>)"

subsection \<open>Pointer events\<close>

text \<open>
  The one way in which a handler gives no state: the exception of a forced dereference
  (\<^verbatim>\<open>containerRef.current!\<close>, \<^verbatim>\<open>annotations.find(...)!\<close>) of \<^verbatim>\<open>null\<close> or \<^verbatim>\<open>undefined\<close>.
\<close>

datatype failure = TypeError

text \<open>\<^verbatim>\<open>annotations.findIndex(p)\<close>, with \<open>None\<close> for \<open>-1\<close>.\<close>

fun findIndex :: "('a \<Rightarrow> bool) \<Rightarrow> 'a list \<Rightarrow> nat option" where
  "findIndex p [] = None"
| "findIndex p (x # xs) = (if p x then Some 0 else map_option Suc (findIndex p xs))"

text \<open>
  The identifier \<^verbatim>\<open>`ann_${Date.now()}_${Math.random().toString(36).slice(2, 7)}`\<close>; the part
  after \<^verbatim>\<open>ann_\<close> is an input of the event.
\<close>

definition fresh_id :: "string \<Rightarrow> string" where
  "fresh_id stamp = ''ann_'' @ stamp"

text \<open>
  The drag that a pointer-down on the annotation \<open>a\<close> starts (lines 218 to 248): a corner
  handle of a rectangle or an end of an arrow within 10 pixels of the pointer, else a move.
\<close>

fun start_drag :: "layout \<Rightarrow> annotation \<Rightarrow> string \<Rightarrow> real \<Rightarrow> real \<Rightarrow> point \<Rightarrow> drag" where
  "start_drag L (RectAnnotation b x y w h) hitId localX localY nrm =
     (let p1 = fromNorm L x y;
          p2 = fromNorm L (js_add x w) (js_add y h);
          handles = [(NW, fst p1, snd p1), (NE, fst p2, snd p1),
                     (SW, fst p1, snd p2), (SE, fst p2, snd p2)]
      in case find (\<lambda>(c, hx, hy).
                      js_lt (js_hypot (js_sub hx (Fin localX)) (js_sub hy (Fin localY))) (Fin 10))
                   handles of
           Some (c, hx, hy) \<Rightarrow>
             \<lparr>mode = ResizeRect, drag_id = hitId, corner = Some c,
              prevX = fst nrm, prevY = snd nrm\<rparr>
         | None \<Rightarrow>
             \<lparr>mode = MoveMode, drag_id = hitId, corner = None,
              prevX = fst nrm, prevY = snd nrm\<rparr>)"
| "start_drag L (ArrowAnnotation b x1 y1 x2 y2) hitId localX localY nrm =
     (let p1 = fromNorm L x1 y1;
          p2 = fromNorm L x2 y2;
          nearP1 = js_lt (js_hypot (js_sub (fst p1) (Fin localX)) (js_sub (snd p1) (Fin localY)))
                         (Fin 10);
          nearP2 = js_lt (js_hypot (js_sub (fst p2) (Fin localX)) (js_sub (snd p2) (Fin localY)))
                         (Fin 10)
      in \<lparr>mode = (if nearP1 then ArrowStart else if nearP2 then ArrowEnd else MoveMode),
          drag_id = hitId, corner = None, prevX = fst nrm, prevY = snd nrm\<rparr>)"
| "start_drag L a hitId localX localY nrm =
     \<lparr>mode = MoveMode, drag_id = hitId, corner = None, prevX = fst nrm, prevY = snd nrm\<rparr>"

fun is_text :: "annotation \<Rightarrow> bool" where
  "is_text (TextAnnotation b x y t) = True"
| "is_text a = False"

text \<open>The branch \<^verbatim>\<open>tool === "select"\<close> of \<^verbatim>\<open>onPointerDown\<close>.\<close>

definition select_down :: "layout \<Rightarrow> real \<Rightarrow> real \<Rightarrow> point \<Rightarrow> editor \<Rightarrow> failure + editor" where
  "select_down L clientX clientY nrm e =
     (let hit = getAnnotationAt L (annotations e) clientX clientY
      in if truthy hit then
           (case (hit, cont L) of
              (Some hitId, Some rect) \<Rightarrow>
                (case find (\<lambda>x. id_of x = hitId) (annotations e) of
                   None \<Rightarrow> Inl TypeError
                 | Some a \<Rightarrow>
                     (let localX = clientX - rleft rect;
                          localY = clientY - rtop rect
                      in Inr (e\<lparr>selectedId := Some hitId,
                                dragRef := Some (start_drag L a hitId localX localY nrm),
                                isDragging := True,
                                editingTextId :=
                                  (if is_text a then Some hitId else editingTextId e),
                                undoStack := undoStack e @ [annotations e],
                                redoStack := []\<rparr>)))
            | _ \<Rightarrow> Inl TypeError)
         else Inr (e\<lparr>selectedId := None, editingTextId := None\<rparr>))"

text \<open>The branch \<^verbatim>\<open>tool === "erase"\<close> of \<^verbatim>\<open>onPointerDown\<close>.\<close>

definition erase_down :: "layout \<Rightarrow> real \<Rightarrow> real \<Rightarrow> editor \<Rightarrow> editor" where
  "erase_down L clientX clientY e =
     (let hit = getAnnotationAt L (annotations e) clientX clientY
      in if truthy hit then
           (case hit of
              Some hitId \<Rightarrow>
                (let next = filter (\<lambda>a. id_of a \<noteq> hitId) (annotations e);
                     e1 = pushHistory next e
                 in if selectedId e = Some hitId
                    then e1\<lparr>selectedId := None, editingTextId := None\<rparr>
                    else e1)
            | None \<Rightarrow> e)
         else e)"

definition onPointerDown :: "layout \<Rightarrow> real \<Rightarrow> real \<Rightarrow> string \<Rightarrow> editor \<Rightarrow> failure + editor" where
  "onPointerDown L clientX clientY stamp e =
     (if \<not> truthy (baseImage e) then Inr e
      else
        (let nrm = toNorm L clientX clientY
         in case tool e of
              SelectTool \<Rightarrow> select_down L clientX clientY nrm e
            | PenTool \<Rightarrow>
                Inr (e\<lparr>drawing := Some \<lparr>dtype = PenTool, startX = fst nrm, startY = snd nrm,
                         points = Some [nrm], currentX = None, currentY = None\<rparr>\<rparr>)
            | RectTool \<Rightarrow>
                Inr (e\<lparr>drawing := Some \<lparr>dtype = RectTool, startX = fst nrm, startY = snd nrm,
                         points = None, currentX = Some (fst nrm), currentY = Some (snd nrm)\<rparr>\<rparr>)
            | ArrowTool \<Rightarrow>
                Inr (e\<lparr>drawing := Some \<lparr>dtype = ArrowTool, startX = fst nrm, startY = snd nrm,
                         points = None, currentX = Some (fst nrm), currentY = Some (snd nrm)\<rparr>\<rparr>)
            | TextTool \<Rightarrow>
                (let newId = fresh_id stamp;
                     newAnn = TextAnnotation
                       \<lparr>ann_id = newId, ann_color = cur_color e, ann_size = cur_size e,
                        linkedFieldId = None\<rparr>
                       (fst nrm) (snd nrm) ''Click to edit''
                 in Inr ((pushHistory (annotations e @ [newAnn]) e)
                           \<lparr>selectedId := Some newId, editingTextId := Some newId\<rparr>))
            | EraseTool \<Rightarrow> Inr (erase_down L clientX clientY e)))"

text \<open>
  The annotation \<^verbatim>\<open>updated\<close> of the dragging branch of \<^verbatim>\<open>onPointerMove\<close> (lines 312 to 354),
  in three parts: the mode \<^verbatim>\<open>move\<close>, the mode \<^verbatim>\<open>resizeRect\<close> and the two arrow modes.
\<close>

fun move_by :: "jsnum \<Rightarrow> jsnum \<Rightarrow> annotation \<Rightarrow> annotation" where
  "move_by dx dy (RectAnnotation b x y w h) =
     RectAnnotation b (clamp (js_add x dx) (Fin 0) (js_sub (Fin 1) w))
                      (clamp (js_add y dy) (Fin 0) (js_sub (Fin 1) h)) w h"
| "move_by dx dy (ArrowAnnotation b x1 y1 x2 y2) =
     ArrowAnnotation b (clamp (js_add x1 dx) (Fin 0) (Fin 1)) (clamp (js_add y1 dy) (Fin 0) (Fin 1))
                       (clamp (js_add x2 dx) (Fin 0) (Fin 1)) (clamp (js_add y2 dy) (Fin 0) (Fin 1))"
| "move_by dx dy (TextAnnotation b x y t) =
     TextAnnotation b (clamp (js_add x dx) (Fin 0) (Fin 1)) (clamp (js_add y dy) (Fin 0) (Fin 1)) t"
| "move_by dx dy (PenAnnotation b ps opacity) =
     PenAnnotation b
       (map (\<lambda>p. (clamp (js_add (fst p) dx) (Fin 0) (Fin 1),
                   clamp (js_add (snd p) dy) (Fin 0) (Fin 1))) ps)
       opacity"

fun resize_rect :: "corner option \<Rightarrow> point \<Rightarrow> annotation \<Rightarrow> annotation" where
  "resize_rect (Some NW) nrm (RectAnnotation b x y w h) =
     (let nx = clamp (fst nrm) (Fin 0) (js_add x w);
          ny = clamp (snd nrm) (Fin 0) (js_add y h);
          nw = js_sub (js_add x w) nx;
          nh = js_sub (js_add y h) ny
      in RectAnnotation b nx ny nw nh)"
| "resize_rect (Some NE) nrm (RectAnnotation b x y w h) =
     (let ny = clamp (snd nrm) (Fin 0) (js_add y h);
          nw = clamp (js_sub (fst nrm) x) (Fin 0) (js_sub (Fin 1) x);
          nh = js_sub (js_add y h) ny
      in RectAnnotation b x ny nw nh)"
| "resize_rect (Some SW) nrm (RectAnnotation b x y w h) =
     (let nx = clamp (fst nrm) (Fin 0) (js_add x w);
          nw = js_sub (js_add x w) nx;
          nh = clamp (js_sub (snd nrm) y) (Fin 0) (js_sub (Fin 1) y)
      in RectAnnotation b nx y nw nh)"
| "resize_rect (Some SE) nrm (RectAnnotation b x y w h) =
     (let nw = clamp (js_sub (fst nrm) x) (Fin 0) (js_sub (Fin 1) x);
          nh = clamp (js_sub (snd nrm) y) (Fin 0) (js_sub (Fin 1) y)
      in RectAnnotation b x y nw nh)"
| "resize_rect c nrm a = a"

fun move_arrow_end :: "dragmode \<Rightarrow> point \<Rightarrow> annotation \<Rightarrow> annotation" where
  "move_arrow_end ArrowStart nrm (ArrowAnnotation b x1 y1 x2 y2) =
     ArrowAnnotation b (clamp (fst nrm) (Fin 0) (Fin 1)) (clamp (snd nrm) (Fin 0) (Fin 1)) x2 y2"
| "move_arrow_end ArrowEnd nrm (ArrowAnnotation b x1 y1 x2 y2) =
     ArrowAnnotation b x1 y1 (clamp (fst nrm) (Fin 0) (Fin 1)) (clamp (snd nrm) (Fin 0) (Fin 1))"
| "move_arrow_end m nrm a = a"

fun is_rect :: "annotation \<Rightarrow> bool" where
  "is_rect (RectAnnotation b x y w h) = True"
| "is_rect a = False"

fun is_arrow :: "annotation \<Rightarrow> bool" where
  "is_arrow (ArrowAnnotation b x1 y1 x2 y2) = True"
| "is_arrow a = False"

definition updated :: "drag \<Rightarrow> point \<Rightarrow> annotation \<Rightarrow> annotation" where
  "updated dr nrm a =
     (let dx = js_sub (fst nrm) (prevX dr);
          dy = js_sub (snd nrm) (prevY dr)
      in if mode dr = MoveMode then move_by dx dy a
         else if mode dr = ResizeRect \<and> is_rect a then resize_rect (corner dr) nrm a
         else if is_arrow a \<and> (mode dr = ArrowStart \<or> mode dr = ArrowEnd)
         then move_arrow_end (mode dr) nrm a
         else a)"

definition onPointerMove :: "layout \<Rightarrow> real \<Rightarrow> real \<Rightarrow> editor \<Rightarrow> editor" where
  "onPointerMove L clientX clientY e =
     (if \<not> truthy (baseImage e) then e
      else
        (let nrm = toNorm L clientX clientY
         in case drawing e of
              Some d \<Rightarrow>
                (if dtype d = PenTool then
                   e\<lparr>drawing := Some (d\<lparr>points :=
                        Some ((case points d of None \<Rightarrow> [] | Some ps \<Rightarrow> ps) @ [nrm])\<rparr>)\<rparr>
                 else if dtype d = RectTool \<or> dtype d = ArrowTool then
                   e\<lparr>drawing := Some (d\<lparr>currentX := Some (fst nrm),
                                           currentY := Some (snd nrm)\<rparr>)\<rparr>
                 else e)
            | None \<Rightarrow>
                (if isDragging e \<and> truthy (selectedId e) \<and> tool e = SelectTool then
                   (case dragRef e of
                      None \<Rightarrow> e
                    | Some dr \<Rightarrow>
                        (case findIndex (\<lambda>a. id_of a = drag_id dr) (annotations e) of
                           None \<Rightarrow> e
                         | Some idx \<Rightarrow>
                             (let a = annotations e ! idx;
                                  next = (annotations e)[idx := updated dr nrm a]
                              in e\<lparr>annotations := next,
                                   dragRef := Some (dr\<lparr>prevX := fst nrm,
                                                      prevY := snd nrm\<rparr>)\<rparr>)))
                 else e)))"

text \<open>
  \<^verbatim>\<open>onPointerUp\<close>. The handler computes \<^verbatim>\<open>toNorm(e.clientX, e.clientY)\<close> and never reads the
  result, so the position of the pointer is no argument here.
\<close>

definition commit_drawing :: "string \<Rightarrow> draw_state \<Rightarrow> editor \<Rightarrow> editor" where
  "commit_drawing stamp d e =
     (let newId = fresh_id stamp;
          b = \<lparr>ann_id = newId, ann_color = cur_color e, ann_size = cur_size e,
               linkedFieldId = None\<rparr>
      in if dtype d = PenTool \<and> (case points d of None \<Rightarrow> False | Some ps \<Rightarrow> 1 < length ps) then
           (case points d of
              None \<Rightarrow> e
            | Some ps \<Rightarrow>
                (pushHistory (annotations e @ [PenAnnotation b ps None]) e)
                  \<lparr>selectedId := Some newId\<rparr>)
         else if dtype d = RectTool \<and> currentX d \<noteq> None \<and> currentY d \<noteq> None then
           (case (currentX d, currentY d) of
              (Some cx, Some cy) \<Rightarrow>
                (let x = js_min (startX d) cx;
                     y = js_min (startY d) cy;
                     width = js_abs (js_sub cx (startX d));
                     height = js_abs (js_sub cy (startY d))
                 in if js_lt (Fin 0.01) width \<and> js_lt (Fin 0.01) height then
                      (pushHistory (annotations e @ [RectAnnotation b x y width height]) e)
                        \<lparr>selectedId := Some newId\<rparr>
                    else e)
            | _ \<Rightarrow> e)
         else if dtype d = ArrowTool \<and> currentX d \<noteq> None \<and> currentY d \<noteq> None then
           (case (currentX d, currentY d) of
              (Some cx, Some cy) \<Rightarrow>
                (let distance =
                       js_sqrt (js_add (js_pow2 (js_sub cx (startX d)))
                                       (js_pow2 (js_sub cy (startY d))))
                 in if js_lt (Fin 0.02) distance then
                      (pushHistory
                         (annotations e @ [ArrowAnnotation b (startX d) (startY d) cx cy]) e)
                        \<lparr>selectedId := Some newId\<rparr>
                    else e)
            | _ \<Rightarrow> e)
         else e)"

definition onPointerUp :: "string \<Rightarrow> editor \<Rightarrow> editor" where
  "onPointerUp stamp e =
     (if \<not> truthy (baseImage e) then e
      else
        (let e1 = (case drawing e of None \<Rightarrow> e | Some d \<Rightarrow> commit_drawing stamp d e)
         in e1\<lparr>drawing := None, isDragging := False, dragRef := None\<rparr>))"

subsection \<open>Editing and deleting the selection\<close>

text \<open>
  The argument of \<^verbatim>\<open>updateSelectedAnnotation\<close>: the component calls it with
  \<^verbatim>\<open>{ text }\<close>, \<^verbatim>\<open>{ color }\<close>, \<^verbatim>\<open>{ size }\<close> and \<^verbatim>\<open>{ linkedFieldId }\<close>. The spread
  \<^verbatim>\<open>{ ...next[idx], ...partial }\<close> of \<^verbatim>\<open>{ text }\<close> over an annotation that is no text adds
  a property that no part of the editor reads.
\<close>

datatype partial = PText string | PColor string | PSize real | PLinked "string option"

fun map_base :: "(base \<Rightarrow> base) \<Rightarrow> annotation \<Rightarrow> annotation" where
  "map_base f (PenAnnotation b ps opacity) = PenAnnotation (f b) ps opacity"
| "map_base f (RectAnnotation b x y w h) = RectAnnotation (f b) x y w h"
| "map_base f (ArrowAnnotation b x1 y1 x2 y2) = ArrowAnnotation (f b) x1 y1 x2 y2"
| "map_base f (TextAnnotation b x y t) = TextAnnotation (f b) x y t"

fun spread :: "annotation \<Rightarrow> partial \<Rightarrow> annotation" where
  "spread (TextAnnotation b x y t) (PText s) = TextAnnotation b x y s"
| "spread a (PText s) = a"
| "spread a (PColor c) = map_base (\<lambda>b. b\<lparr>ann_color := c\<rparr>) a"
| "spread a (PSize n) = map_base (\<lambda>b. b\<lparr>ann_size := n\<rparr>) a"
| "spread a (PLinked l) = map_base (\<lambda>b. b\<lparr>linkedFieldId := l\<rparr>) a"

definition updateSelectedAnnotation :: "partial \<Rightarrow> editor \<Rightarrow> editor" where
  "updateSelectedAnnotation part e =
     (if \<not> truthy (selectedId e) then e
      else
        (case findIndex (\<lambda>a. Some (id_of a) = selectedId e) (annotations e) of
           None \<Rightarrow> e
         | Some idx \<Rightarrow>
             pushHistory ((annotations e)[idx := spread (annotations e ! idx) part]) e))"

definition removeSelected :: "editor \<Rightarrow> editor" where
  "removeSelected e =
     (if \<not> truthy (selectedId e) then e
      else
        (let next = filter (\<lambda>a. Some (id_of a) \<noteq> selectedId e) (annotations e)
         in (pushHistory next e)\<lparr>selectedId := None, editingTextId := None\<rparr>))"

text \<open>The button of an entry of the annotations list (lines 1018 to 1026).\<close>

definition removeListed :: "string \<Rightarrow> editor \<Rightarrow> editor" where
  "removeListed aid e =
     (let next = filter (\<lambda>ann. id_of ann \<noteq> aid) (annotations e);
          e1 = pushHistory next e
      in if selectedId e = Some aid
         then e1\<lparr>selectedId := None, editingTextId := None\<rparr>
         else e1)"

subsection \<open>Sessions\<close>

text \<open>
  The events of the component: the three pointer handlers of the canvas, the buttons of the
  toolbar, the controls of the selected annotation, the annotations list, and the plain
  setters (tool buttons, colour and size inputs, clicks that select or deselect, leaving
  the text input).
\<close>

datatype action =
    PointerDown layout real real string
  | PointerMove layout real real
  | PointerUp string
  | Undo
  | Redo
  | ClearAll
  | RemoveImage
  | LoadImage "string option"
  | UpdateSelected partial
  | RemoveSelected
  | RemoveListed string
  | SetTool tool
  | SetColor string
  | SetSize real
  | SetSelectedId "string option"
  | StopEditing

fun perform :: "action \<Rightarrow> editor \<Rightarrow> failure + editor" where
  "perform (PointerDown L x y stamp) e = onPointerDown L x y stamp e"
| "perform (PointerMove L x y) e = Inr (onPointerMove L x y e)"
| "perform (PointerUp stamp) e = Inr (onPointerUp stamp e)"
| "perform Undo e = Inr (undo e)"
| "perform Redo e = Inr (redo e)"
| "perform ClearAll e = Inr (clearAll e)"
| "perform RemoveImage e = Inr (removeImage e)"
| "perform (LoadImage file) e = Inr (loadImage file e)"
| "perform (UpdateSelected part) e = Inr (updateSelectedAnnotation part e)"
| "perform RemoveSelected e = Inr (removeSelected e)"
| "perform (RemoveListed aid) e = Inr (removeListed aid e)"
| "perform (SetTool t) e = Inr (e\<lparr>tool := t\<rparr>)"
| "perform (SetColor c) e = Inr (e\<lparr>cur_color := c\<rparr>)"
| "perform (SetSize n) e = Inr (e\<lparr>cur_size := n\<rparr>)"
| "perform (SetSelectedId i) e = Inr (e\<lparr>selectedId := i\<rparr>)"
| "perform StopEditing e = Inr (e\<lparr>editingTextId := None\<rparr>)"

text \<open>A sequence of events, up to the first one that gives no state.\<close>

fun run :: "action list \<Rightarrow> editor \<Rightarrow> failure + editor" where
  "run [] e = Inr e"
| "run (a # as) e = (case perform a e of Inl f \<Rightarrow> Inl f | Inr e' \<Rightarrow> run as e')"

text \<open>The state when the component is mounted with the props \<open>src\<close> (the base image) and \<open>anns\<close>.\<close>

definition mounted :: "string option \<Rightarrow> annotation list \<Rightarrow> editor" where
  "mounted src anns =
     \<lparr>baseImage = src, annotations = anns, tool = SelectTool,
      cur_color = ''#e11d48'', cur_size = 3,
      selectedId = None, editingTextId = None, drawing = None,
      undoStack = [], redoStack = [], isDragging = False, dragRef = None\<rparr>"

text \<open>An event other than a click on Undo or Redo.\<close>

fun edits :: "action \<Rightarrow> bool" where
  "edits Undo = False"
| "edits Redo = False"
| "edits a = True"

subsection \<open>Notions of the specification\<close>

text \<open>
  The operations whose changes of the AnnotationSet are commits (create, delete, clear,
  text-edit and the other edits of the selection, removing the image): all events but the
  moves of a drag, whose commit is made by the pointer-down that starts the drag, undo and
  redo, and the loading of an image.
\<close>

fun commits :: "action \<Rightarrow> bool" where
  "commits (PointerMove L x y) = False"
| "commits Undo = False"
| "commits Redo = False"
| "commits (LoadImage file) = False"
| "commits a = True"

text \<open>The pointer-move events of a gesture, each with the page geometry at its time.\<close>

definition moves :: "(layout \<times> real \<times> real) list \<Rightarrow> action list" where
  "moves ms = map (\<lambda>(L, x, y). PointerMove L x y) ms"

text \<open>
  The state \<open>Dragging\<close> of the interaction: an image is loaded, nothing is being drawn, the
  select tool is active with a selection, and \<^verbatim>\<open>dragRef\<close> holds a drag whose target is at
  the index \<open>idx\<close> of the AnnotationSet.
\<close>

definition dragging :: "editor \<Rightarrow> drag \<Rightarrow> nat \<Rightarrow> bool" where
  "dragging e dr idx \<longleftrightarrow>
     truthy (baseImage e) \<and> drawing e = None \<and> isDragging e \<and> truthy (selectedId e)
     \<and> tool e = SelectTool \<and> dragRef e = Some dr
     \<and> findIndex (\<lambda>a. id_of a = drag_id dr) (annotations e) = Some idx"

text \<open>
  An operation pushes the snapshot and applies the set \<open>next\<close>: the AnnotationSet of before
  the operation is the new top of the undo stack, over the entries the stack had, the redo
  stack is empty and \<open>next\<close> is the AnnotationSet.
\<close>

definition pushed :: "editor \<Rightarrow> editor \<Rightarrow> annotation list \<Rightarrow> bool" where
  "pushed e e' next \<longleftrightarrow>
     undoStack e' = undoStack e @ [annotations e]
     \<and> redoStack e' = []
     \<and> annotations e' = next"

text \<open>
  An operation commits the annotation \<open>a\<close>: \<open>a\<close> is appended to the AnnotationSet, the set
  before the operation is pushed on the undo stack and the redo stack is emptied. An
  attempt is discarded: the AnnotationSet and both stacks are as before.
\<close>

definition committed :: "editor \<Rightarrow> editor \<Rightarrow> annotation \<Rightarrow> bool" where
  "committed e e' a \<longleftrightarrow>
     annotations e' = annotations e @ [a]
     \<and> undoStack e' = undoStack e @ [annotations e]
     \<and> redoStack e' = []"

definition discarded :: "editor \<Rightarrow> editor \<Rightarrow> bool" where
  "discarded e e' \<longleftrightarrow>
     annotations e' = annotations e
     \<and> undoStack e' = undoStack e
     \<and> redoStack e' = redoStack e"

text \<open>
  The positional coordinates of an annotation are normalized (numbers of the unit
  interval); a rectangle lies in the unit square as a whole, with a width and a height that
  are not negative, \<open>x\<close> in \<open>[0, 1 - width]\<close> and \<open>y\<close> in \<open>[0, 1 - height]\<close>.
\<close>

fun in_bounds :: "annotation \<Rightarrow> bool" where
  "in_bounds (RectAnnotation b x y w h) =
     (js_le (Fin 0) w \<and> js_le (Fin 0) h
      \<and> js_le (Fin 0) x \<and> js_le x (js_sub (Fin 1) w)
      \<and> js_le (Fin 0) y \<and> js_le y (js_sub (Fin 1) h))"
| "in_bounds (ArrowAnnotation b x1 y1 x2 y2) =
     (in_unit x1 \<and> in_unit y1 \<and> in_unit x2 \<and> in_unit y2)"
| "in_bounds (TextAnnotation b x y t) = (in_unit x \<and> in_unit y)"
| "in_bounds (PenAnnotation b ps opacity) = list_all (\<lambda>p. in_unit (fst p) \<and> in_unit (snd p)) ps"

text \<open>
  The geometry behind the hit test, over the real numbers: the point of the segment from
  \<open>(x1, y1)\<close> to \<open>(x2, y2)\<close> at the parameter \<open>t\<close> in \<open>[0, 1]\<close>, and the Euclidean distance
  of the position \<open>(px, py)\<close> to a point.
\<close>

definition on_segment :: "real \<Rightarrow> real \<Rightarrow> real \<Rightarrow> real \<Rightarrow> real \<Rightarrow> real \<times> real" where
  "on_segment x1 y1 x2 y2 t = (x1 + t * (x2 - x1), y1 + t * (y2 - y1))"

definition euclid :: "real \<Rightarrow> real \<Rightarrow> real \<times> real \<Rightarrow> real" where
  "euclid px py q = sqrt ((px - fst q) * (px - fst q) + (py - snd q) * (py - snd q))"

text \<open>
  The position \<open>nrm\<close> is within the tolerance of the segment from \<open>p\<close> to \<open>q\<close>: the position
  and the two ends are pairs of real numbers, and some point of the segment is at a
  Euclidean distance below the tolerance from the position.
\<close>

definition near_segment :: "point \<Rightarrow> point \<Rightarrow> point \<Rightarrow> bool" where
  "near_segment nrm p q \<longleftrightarrow>
     (\<exists>px py x1 y1 x2 y2 t.
        nrm = (Fin px, Fin py) \<and> p = (Fin x1, Fin y1) \<and> q = (Fin x2, Fin y2)
        \<and> 0 \<le> t \<and> t \<le> 1
        \<and> euclid px py (on_segment x1 y1 x2 y2 t) < tolerance)"

text \<open>The coordinate \<open>v\<close> is in the interval from \<open>lo\<close> to \<open>hi\<close>, ends included.\<close>

definition in_span :: "jsnum \<Rightarrow> jsnum \<Rightarrow> jsnum \<Rightarrow> bool" where
  "in_span v lo hi \<longleftrightarrow> js_le lo v \<and> js_le v hi"

text \<open>
  The geometry of an annotation lies within the tolerance of the position \<open>nrm\<close>: the
  position is in the rectangle enlarged by the tolerance on its four sides; the anchor of
  the text and the position are numbers that differ by less than the tolerance on each
  axis; the position is within the tolerance of the segment of the arrow; it is within the
  tolerance of one of the segments between consecutive points of the pen stroke.
\<close>

fun near :: "point \<Rightarrow> annotation \<Rightarrow> bool" where
  "near nrm (RectAnnotation b x y w h) =
     (in_span (fst nrm) (js_sub x (Fin tolerance)) (js_add (js_add x w) (Fin tolerance))
      \<and> in_span (snd nrm) (js_sub y (Fin tolerance)) (js_add (js_add y h) (Fin tolerance)))"
| "near nrm (TextAnnotation b x y t) =
     (\<exists>px py tx ty. nrm = (Fin px, Fin py) \<and> x = Fin tx \<and> y = Fin ty
        \<and> \<bar>px - tx\<bar> < tolerance \<and> \<bar>py - ty\<bar> < tolerance)"
| "near nrm (ArrowAnnotation b x1 y1 x2 y2) = near_segment nrm (x1, y1) (x2, y2)"
| "near nrm (PenAnnotation b ps opacity) =
     (\<exists>j. Suc j < length ps \<and> near_segment nrm (ps ! j) (ps ! Suc j))"

text \<open>
  The parameter of the point of the segment that \<^verbatim>\<open>distanceToLine\<close> measures the distance
  to, for coordinates that are numbers: the projection parameter, limited to \<open>[0, 1]\<close>.
\<close>

definition foot :: "real \<Rightarrow> real \<Rightarrow> real \<Rightarrow> real \<Rightarrow> real \<Rightarrow> real \<Rightarrow> real" where
  "foot px py x1 y1 x2 y2 =
     (let C = x2 - x1; D = y2 - y1;
          lenSq = C * C + D * D;
          param = (if lenSq \<noteq> 0 then ((px - x1) * C + (py - y1) * D) / lenSq else - 1)
      in if param < 0 then 0 else if 1 < param then 1 else param)"

subsection \<open>Example data\<close>

text \<open>
  A page on which the image fills the container, 100 by 100 pixels, so that the pointer at
  \<open>(cx, cy)\<close> has the normalized position \<open>(cx / 100, cy / 100)\<close>.
\<close>

definition square_page :: layout where
  "square_page =
     \<lparr>cont = Some \<lparr>rleft = 0, rtop = 0, rwidth = 100, rheight = 100\<rparr>,
      img = Some \<lparr>rleft = 0, rtop = 0, rwidth = 100, rheight = 100\<rparr>\<rparr>"

text \<open>
  A page whose image has not been laid out yet: the \<^verbatim>\<open>img\<close> element is at \<open>(10, 20)\<close> in
  the container and has no extent.
\<close>

definition unloaded_page :: layout where
  "unloaded_page =
     \<lparr>cont = Some \<lparr>rleft = 0, rtop = 0, rwidth = 300, rheight = 200\<rparr>,
      img = Some \<lparr>rleft = 10, rtop = 20, rwidth = 0, rheight = 0\<rparr>\<rparr>"

definition text_at :: "string \<Rightarrow> real \<Rightarrow> real \<Rightarrow> annotation" where
  "text_at stamp x y =
     TextAnnotation
       \<lparr>ann_id = fresh_id stamp, ann_color = ''#e11d48'', ann_size = 3, linkedFieldId = None\<rparr>
       (Fin x) (Fin y) ''Click to edit''"

text \<open>Three text labels placed with the text tool, and the state after placing them.\<close>

definition place_three :: "action list" where
  "place_three =
     [SetTool TextTool,
      PointerDown square_page 10 10 ''1'',
      PointerDown square_page 50 50 ''2'',
      PointerDown square_page 90 90 ''3'']"

definition three_labels :: "annotation list" where
  "three_labels = [text_at ''1'' 0.1 0.1, text_at ''2'' 0.5 0.5, text_at ''3'' 0.9 0.9]"

definition after_three :: editor where
  "after_three =
     \<lparr>baseImage = Some ''scan-1'', annotations = three_labels, tool = TextTool,
      cur_color = ''#e11d48'', cur_size = 3,
      selectedId = Some (fresh_id ''3''), editingTextId = Some (fresh_id ''3''),
      drawing = None,
      undoStack = [[], take 1 three_labels, take 2 three_labels], redoStack = [],
      isDragging = False, dragRef = None\<rparr>"

text \<open>Annotations with the default colour and size and a given id.\<close>

definition example_base :: "string \<Rightarrow> base" where
  "example_base name =
     \<lparr>ann_id = name, ann_color = ''#e11d48'', ann_size = 3, linkedFieldId = None\<rparr>"

definition box :: "string \<Rightarrow> real \<Rightarrow> real \<Rightarrow> real \<Rightarrow> real \<Rightarrow> annotation" where
  "box name x y w h = RectAnnotation (example_base name) (Fin x) (Fin y) (Fin w) (Fin h)"

definition arrow_from :: "string \<Rightarrow> real \<Rightarrow> real \<Rightarrow> real \<Rightarrow> real \<Rightarrow> annotation" where
  "arrow_from name x1 y1 x2 y2 =
     ArrowAnnotation (example_base name) (Fin x1) (Fin y1) (Fin x2) (Fin y2)"

definition stroke :: "string \<Rightarrow> (real \<times> real) list \<Rightarrow> annotation" where
  "stroke name ps = PenAnnotation (example_base name) (map (\<lambda>(x, y). (Fin x, Fin y)) ps) None"

text \<open>
  Two rectangles that overlap, an arrow across both of them and a pen stroke apart from
  them, for the hit test.
\<close>

definition sample_shapes :: "annotation list" where
  "sample_shapes =
     [box ''a'' 0.1 0.1 0.5 0.5,
      box ''b'' 0.3 0.3 0.5 0.5,
      arrow_from ''r'' 0.2 0.4 0.6 0.4,
      stroke ''p'' [(0.8, 0.1), (0.8, 0.3), (0.9, 0.3)]]"

text \<open>
  The state after a pointer-down of the select tool has hit the annotation \<open>hitId\<close> of
  \<open>anns\<close> in a freshly mounted editor and started the drag \<open>dr\<close>.
\<close>

definition held :: "dragmode \<Rightarrow> corner option \<Rightarrow> string \<Rightarrow> jsnum \<Rightarrow> jsnum \<Rightarrow> drag" where
  "held m c hitId x y = \<lparr>mode = m, drag_id = hitId, corner = c, prevX = x, prevY = y\<rparr>"

definition grabbed :: "annotation list \<Rightarrow> string \<Rightarrow> drag \<Rightarrow> editor" where
  "grabbed anns hitId dr =
     (mounted (Some ''scan-1'') anns)
       \<lparr>selectedId := Some hitId, undoStack := [anns], isDragging := True,
        dragRef := Some dr\<rparr>"

text \<open>The states in which a pen stroke with the points \<open>ps\<close>, or a rectangle or an arrow, is being drawn.\<close>

definition pen_stroke :: "point list \<Rightarrow> draw_state" where
  "pen_stroke ps =
     \<lparr>dtype = PenTool, startX = Fin 0.1, startY = Fin 0.1, points = Some ps,
      currentX = None, currentY = None\<rparr>"

definition drawing_pen :: "point list \<Rightarrow> editor" where
  "drawing_pen ps =
     (mounted (Some ''scan-1'') [])\<lparr>tool := PenTool, drawing := Some (pen_stroke ps)\<rparr>"

definition shape_drawn :: "tool \<Rightarrow> jsnum \<Rightarrow> jsnum \<Rightarrow> jsnum \<Rightarrow> jsnum \<Rightarrow> draw_state" where
  "shape_drawn t sx sy cx cy =
     \<lparr>dtype = t, startX = sx, startY = sy, points = None,
      currentX = Some cx, currentY = Some cy\<rparr>"

definition drawing_shape :: "tool \<Rightarrow> jsnum \<Rightarrow> jsnum \<Rightarrow> jsnum \<Rightarrow> jsnum \<Rightarrow> editor" where
  "drawing_shape t sx sy cx cy =
     (mounted (Some ''scan-1'') [])\<lparr>tool := t, drawing := Some (shape_drawn t sx sy cx cy)\<rparr>"

section \<open>Verified properties\<close>

subsection \<open>Numbers\<close>

lemma clamp_Fin: "clamp (Fin v) (Fin mn) (Fin mx) = Fin (max mn (min mx v))"
  by (simp add: clamp_def)

lemma clamp_NaN: "clamp NaN mn mx = NaN"
  by (cases mn; cases mx) (simp_all add: clamp_def)

lemma clamp_unit: "v \<noteq> NaN \<Longrightarrow> in_unit (clamp v (Fin 0) (Fin 1))"
  by (cases v) (simp_all add: clamp_def)

lemma js_hypot_less:
  "0 \<le> t \<Longrightarrow> js_lt (js_hypot (Fin a) (Fin b)) (Fin t) \<longleftrightarrow> a * a + b * b < t\<^sup>2"
proof -
  assume t: "0 \<le> t"
  have "sqrt (a * a + b * b) < t \<longleftrightarrow> a * a + b * b < t\<^sup>2"
    using t by (metis real_sqrt_less_iff real_sqrt_abs abs_of_nonneg)
  then show ?thesis by (simp add: js_hypot_def)
qed

subsection \<open>Coordinate conversion\<close>

text \<open>
  When the image has a width and a height other than zero both coordinates of \<^verbatim>\<open>toNorm\<close> are
  in the unit interval, whatever the position: a missing container gives \<open>(0, 0)\<close>, a
  missing image the dimensions \<open>1\<close> by \<open>1\<close>. And in every case a coordinate is in the unit
  interval or NaN (never infinite).
\<close>

lemma js_div_NaN: "js_div (Fin a) (Fin b) = NaN \<longleftrightarrow> a = 0 \<and> b = 0"
  by simp

lemma toNorm_clamped:
  "\<exists>u v. toNorm L clientX clientY = (clamp u (Fin 0) (Fin 1), clamp v (Fin 0) (Fin 1))"
proof (cases "cont L")
  case None
  then have "toNorm L clientX clientY = (clamp (Fin 0) (Fin 0) (Fin 1), clamp (Fin 0) (Fin 0) (Fin 1))"
    by (simp add: toNorm_def clamp_def)
  then show ?thesis by blast
next
  case (Some rect)
  show ?thesis
    apply (simp only: toNorm_def Some option.case Let_def clamp_def)
    apply blast
    done
qed

lemma toNorm_nondegenerate:
  assumes "rwidth (imageDims L) \<noteq> 0" and "rheight (imageDims L) \<noteq> 0"
  shows "in_unit (fst (toNorm L clientX clientY)) \<and> in_unit (snd (toNorm L clientX clientY))"
proof (cases "cont L")
  case None
  then show ?thesis by (simp add: toNorm_def)
next
  case (Some rect)
  with assms show ?thesis
    by (simp add: toNorm_def Let_def)
qed

lemma toNorm_NaN_or_unit:
  "(fst (toNorm L clientX clientY) = NaN \<or> in_unit (fst (toNorm L clientX clientY)))
   \<and> (snd (toNorm L clientX clientY) = NaN \<or> in_unit (snd (toNorm L clientX clientY)))"
proof -
  obtain u v where "toNorm L clientX clientY = (clamp u (Fin 0) (Fin 1), clamp v (Fin 0) (Fin 1))"
    using toNorm_clamped by blast
  moreover have "clamp w (Fin 0) (Fin 1) = NaN \<or> in_unit (clamp w (Fin 0) (Fin 1))" for w
    by (cases w) (simp_all add: clamp_def)
  ultimately show ?thesis by simp
qed

text \<open>The conversions on the example page.\<close>

lemma cont_square_page:
  "cont square_page = Some \<lparr>rleft = 0, rtop = 0, rwidth = 100, rheight = 100\<rparr>"
  by (simp add: square_page_def)

lemma fromNorm_square_page: "fromNorm square_page (Fin x) (Fin y) = (Fin (x * 100), Fin (y * 100))"
  by (simp add: fromNorm_def imageDims_def square_page_def)

lemma toNorm_square_page:
  "0 \<le> x \<Longrightarrow> x \<le> 100 \<Longrightarrow> 0 \<le> y \<Longrightarrow> y \<le> 100 \<Longrightarrow>
     toNorm square_page x y = (Fin (x / 100), Fin (y / 100))"
  by (simp add: toNorm_def square_page_def imageDims_def)

text \<open>
  C3. The claim: for every pointer position \<^verbatim>\<open>toNorm\<close> returns a pair in the unit square,
  and for a degenerate bounding box (width or height at most zero) a defined fallback and
  never NaN. The code has the fallbacks \<open>(0, 0)\<close> and \<open>1\<close> by \<open>1\<close> for missing elements and
  clamps the quotient, but it divides by a width and a height of zero: with the pointer on
  the left upper corner of an image without extent both coordinates are NaN.
\<close>

theorem toNorm_degenerate_NaN:
  "toNorm unloaded_page 10 20 = (NaN, NaN)"
  by (simp add: toNorm_def unloaded_page_def imageDims_def)

subsection \<open>History\<close>

lemma undo_redo_nonempty: "undoStack e \<noteq> [] \<Longrightarrow> redo (undo e) = e"
  by (simp add: undo_def redo_def Let_def)

lemma undo_redo_fresh: "undoStack e = [] \<Longrightarrow> redoStack e = [] \<Longrightarrow> redo (undo e) = e"
  by (simp add: undo_def redo_def)

lemma perform_keeps_redo_empty:
  assumes "edits a" and "redoStack e = []" and "perform a e = Inr e'"
  shows "redoStack e' = []"
  using assms
  by (cases a)
     (auto simp: onPointerDown_def onPointerMove_def onPointerUp_def select_down_def
        erase_down_def pushHistory_def clearAll_def removeImage_def loadImage_def
        updateSelectedAnnotation_def removeSelected_def removeListed_def commit_drawing_def
        Let_def
      split: if_splits option.splits tool.splits prod.splits)

lemma run_keeps_redo_empty:
  "list_all edits as \<Longrightarrow> redoStack e = [] \<Longrightarrow> run as e = Inr e' \<Longrightarrow> redoStack e' = []"
proof (induction as arbitrary: e)
  case Nil
  then show ?case by simp
next
  case (Cons a as)
  from Cons.prems(3) obtain e1 where e1: "perform a e = Inr e1" "run as e1 = Inr e'"
    by (auto split: sum.splits)
  from Cons.prems(1) have "edits a" "list_all edits as" by simp_all
  with e1 Cons.prems(2) Cons.IH show ?case
    using perform_keeps_redo_empty by blast
qed

lemma run_place_three: "run place_three (mounted (Some ''scan-1'') []) = Inr after_three"
  by (simp add: place_three_def mounted_def after_three_def three_labels_def text_at_def
        onPointerDown_def toNorm_square_page pushHistory_def
        Let_def fresh_id_def)

text \<open>
  C1. In every state that a sequence of operations other than undo and redo (so every
  sequence of commit-producing operations) reaches from the mounted component, undo followed
  by redo gives the state it started from: the same annotations, the same undo stack and
  the same redo stack.
\<close>

theorem undo_then_redo_restores:
  assumes "list_all edits as" and "run as (mounted src anns) = Inr e"
  shows "redo (undo e) = e
         \<and> annotations (redo (undo e)) = annotations e
         \<and> undoStack (redo (undo e)) = undoStack e
         \<and> redoStack (redo (undo e)) = redoStack e"
proof -
  have "redoStack (mounted src anns) = []"
    by (simp add: mounted_def)
  with assms have "redoStack e = []"
    using run_keeps_redo_empty by blast
  then have "redo (undo e) = e"
    by (cases "undoStack e = []") (simp_all add: undo_redo_fresh undo_redo_nonempty)
  then show ?thesis by simp
qed

theorem undo_then_redo_restores_witness:
  "list_all edits place_three
   \<and> run place_three (mounted (Some ''scan-1'') []) = Inr after_three
   \<and> annotations (undo after_three) = take 2 three_labels
   \<and> redo (undo after_three) = after_three"
  using undo_then_redo_restores [of place_three "Some ''scan-1''" "[]" after_three]
    run_place_three
  by (simp add: place_three_def after_three_def undo_def three_labels_def)

text \<open>
  C2. The claim: loading a new base image empties the AnnotationSet and both history stacks.
  The handler of the file input empties the AnnotationSet and the selection, and it leaves
  the two stacks as they are: after three labels were placed the undo stack still has its
  three snapshots.
\<close>

theorem loadImage_clears_annotations_keeps_history:
  "annotations (loadImage (Some data) e) = []
   \<and> baseImage (loadImage (Some data) e) = Some data
   \<and> selectedId (loadImage (Some data) e) = None
   \<and> editingTextId (loadImage (Some data) e) = None
   \<and> undoStack (loadImage (Some data) e) = undoStack e
   \<and> redoStack (loadImage (Some data) e) = redoStack e"
  by (simp add: loadImage_def)

theorem loadImage_keeps_undo_counterexample:
  "length (annotations after_three) = 3
   \<and> annotations (loadImage (Some ''scan-2'') after_three) = []
   \<and> \<not> (undoStack (loadImage (Some ''scan-2'') after_three) = []
        \<and> redoStack (loadImage (Some ''scan-2'') after_three) = [])"
  by (simp add: loadImage_def after_three_def three_labels_def)


subsection \<open>Drawing\<close>

lemma committed_not_discarded: "committed e e' a \<Longrightarrow> \<not> discarded e e'"
  by (auto simp: committed_def discarded_def)

lemma js_sqrt_sum_squares: "js_sqrt (Fin (a\<^sup>2 + b\<^sup>2)) = Fin (sqrt (a\<^sup>2 + b\<^sup>2))"
  by (simp add: js_sqrt_def not_less)

text \<open>
  C5. Pointer-up while something is being drawn. A pen stroke is committed if and only if
  it has at least two points; a rectangle if and only if its width and its height both exceed
  0.01; an arrow if and only if the distance of its ends exceeds 0.02. Every other attempt is
  discarded: the AnnotationSet and both stacks stay as they are (no state is committed and
  discarded at once, by \<open>committed_not_discarded\<close>). This is stated twice for the rectangle
  and the arrow: for all values that the coordinates can have, with the operations of
  JavaScript (a width, height or distance that is NaN exceeds nothing), and for coordinates
  that are numbers, with the operations of the real numbers. The arrow from \<open>(0, 0)\<close> to
  \<open>(0.01, 0.01)\<close> is discarded.
\<close>

theorem pointer_up_commit_thresholds:
  assumes img: "truthy (baseImage e)"
    and d: "drawing e = Some d"
    and b: "b = \<lparr>ann_id = fresh_id stamp, ann_color = cur_color e, ann_size = cur_size e,
                 linkedFieldId = None\<rparr>"
    and e': "e' = onPointerUp stamp e"
  shows "(dtype d = PenTool \<and> points d = Some ps \<longrightarrow>
            committed e e' (PenAnnotation b ps None) = (2 \<le> length ps)
            \<and> discarded e e' = (length ps < 2))
       \<and> (dtype d = RectTool \<and> currentX d = Some cx \<and> currentY d = Some cy \<longrightarrow>
            committed e e'
              (RectAnnotation b (js_min (startX d) cx) (js_min (startY d) cy)
                 (js_abs (js_sub cx (startX d))) (js_abs (js_sub cy (startY d))))
              = (js_lt (Fin 0.01) (js_abs (js_sub cx (startX d)))
                 \<and> js_lt (Fin 0.01) (js_abs (js_sub cy (startY d))))
            \<and> discarded e e'
              = (\<not> (js_lt (Fin 0.01) (js_abs (js_sub cx (startX d)))
                    \<and> js_lt (Fin 0.01) (js_abs (js_sub cy (startY d))))))
       \<and> (dtype d = RectTool \<and> startX d = Fin sx \<and> startY d = Fin sy
            \<and> currentX d = Some (Fin rx) \<and> currentY d = Some (Fin ry) \<longrightarrow>
            committed e e'
              (RectAnnotation b (Fin (min sx rx)) (Fin (min sy ry))
                 (Fin \<bar>rx - sx\<bar>) (Fin \<bar>ry - sy\<bar>))
              = (0.01 < \<bar>rx - sx\<bar> \<and> 0.01 < \<bar>ry - sy\<bar>)
            \<and> discarded e e' = (\<not> (0.01 < \<bar>rx - sx\<bar> \<and> 0.01 < \<bar>ry - sy\<bar>)))
       \<and> (dtype d = ArrowTool \<and> currentX d = Some cx \<and> currentY d = Some cy \<longrightarrow>
            committed e e' (ArrowAnnotation b (startX d) (startY d) cx cy)
              = js_lt (Fin 0.02)
                  (js_sqrt (js_add (js_pow2 (js_sub cx (startX d)))
                                   (js_pow2 (js_sub cy (startY d)))))
            \<and> discarded e e'
              = (\<not> js_lt (Fin 0.02)
                  (js_sqrt (js_add (js_pow2 (js_sub cx (startX d)))
                                   (js_pow2 (js_sub cy (startY d)))))))
       \<and> (dtype d = ArrowTool \<and> startX d = Fin sx \<and> startY d = Fin sy
            \<and> currentX d = Some (Fin rx) \<and> currentY d = Some (Fin ry) \<longrightarrow>
            committed e e' (ArrowAnnotation b (Fin sx) (Fin sy) (Fin rx) (Fin ry))
              = (0.02 < sqrt ((rx - sx)\<^sup>2 + (ry - sy)\<^sup>2))
            \<and> discarded e e' = (\<not> 0.02 < sqrt ((rx - sx)\<^sup>2 + (ry - sy)\<^sup>2)))
       \<and> (dtype d = ArrowTool \<and> startX d = Fin 0 \<and> startY d = Fin 0
            \<and> currentX d = Some (Fin 0.01) \<and> currentY d = Some (Fin 0.01) \<longrightarrow> discarded e e')"
proof -
  have pen: "committed e e' (PenAnnotation b ps None) = (2 \<le> length ps)
             \<and> discarded e e' = (length ps < 2)"
    if "dtype d = PenTool" "points d = Some ps"
    using that img d b e'
    by (auto simp: onPointerUp_def commit_drawing_def pushHistory_def committed_def
          discarded_def Let_def)
  have rect: "committed e e'
              (RectAnnotation b (js_min (startX d) cx) (js_min (startY d) cy)
                 (js_abs (js_sub cx (startX d))) (js_abs (js_sub cy (startY d))))
              = (js_lt (Fin 0.01) (js_abs (js_sub cx (startX d)))
                 \<and> js_lt (Fin 0.01) (js_abs (js_sub cy (startY d))))
            \<and> discarded e e'
              = (\<not> (js_lt (Fin 0.01) (js_abs (js_sub cx (startX d)))
                    \<and> js_lt (Fin 0.01) (js_abs (js_sub cy (startY d)))))"
    if "dtype d = RectTool" "currentX d = Some cx" "currentY d = Some cy" for cx cy
    using that img d b e'
    by (simp add: onPointerUp_def commit_drawing_def pushHistory_def committed_def
          discarded_def Let_def del: js_sub.simps)
  have rect_fin: "committed e e'
              (RectAnnotation b (Fin (min sx rx)) (Fin (min sy ry))
                 (Fin \<bar>rx - sx\<bar>) (Fin \<bar>ry - sy\<bar>))
              = (0.01 < \<bar>rx - sx\<bar> \<and> 0.01 < \<bar>ry - sy\<bar>)
            \<and> discarded e e' = (\<not> (0.01 < \<bar>rx - sx\<bar> \<and> 0.01 < \<bar>ry - sy\<bar>))"
    if "dtype d = RectTool" "startX d = Fin sx" "startY d = Fin sy"
       "currentX d = Some (Fin rx)" "currentY d = Some (Fin ry)"
    using rect [OF that(1,4,5)] that(2,3) by simp
  have arrow: "committed e e' (ArrowAnnotation b (startX d) (startY d) cx cy)
              = js_lt (Fin 0.02)
                  (js_sqrt (js_add (js_pow2 (js_sub cx (startX d)))
                                   (js_pow2 (js_sub cy (startY d)))))
            \<and> discarded e e'
              = (\<not> js_lt (Fin 0.02)
                  (js_sqrt (js_add (js_pow2 (js_sub cx (startX d)))
                                   (js_pow2 (js_sub cy (startY d))))))"
    if "dtype d = ArrowTool" "currentX d = Some cx" "currentY d = Some cy" for cx cy
    using that img d b e'
    by (simp add: onPointerUp_def commit_drawing_def pushHistory_def committed_def
          discarded_def Let_def del: js_sub.simps)
  have arrow_fin: "committed e e' (ArrowAnnotation b (Fin sx) (Fin sy) (Fin rx) (Fin ry))
              = (0.02 < sqrt ((rx - sx)\<^sup>2 + (ry - sy)\<^sup>2))
            \<and> discarded e e' = (\<not> 0.02 < sqrt ((rx - sx)\<^sup>2 + (ry - sy)\<^sup>2))"
    if "dtype d = ArrowTool" "startX d = Fin sx" "startY d = Fin sy"
       "currentX d = Some (Fin rx)" "currentY d = Some (Fin ry)" for sx sy rx ry
    using arrow [OF that(1,4,5)] that(2,3)
    by (simp add: js_sqrt_sum_squares)
  have short: "discarded e e'"
    if "dtype d = ArrowTool" "startX d = Fin 0" "startY d = Fin 0"
       "currentX d = Some (Fin 0.01)" "currentY d = Some (Fin 0.01)"
  proof -
    have "sqrt ((0.01 - 0)\<^sup>2 + (0.01 - 0)\<^sup>2) \<le> sqrt ((0.02::real)\<^sup>2)"
      by (rule real_sqrt_le_mono) (simp add: power2_eq_square)
    then have "\<not> (0.02::real) < sqrt ((0.01 - 0)\<^sup>2 + (0.01 - 0)\<^sup>2)"
      by simp
    with arrow_fin [OF that] show ?thesis by simp
  qed
  from pen rect rect_fin arrow arrow_fin short show ?thesis by blast
qed

lemma run_pen_gesture:
  "run [SetTool PenTool, PointerDown square_page 10 10 ''0'', PointerMove square_page 20 20]
     (mounted (Some ''scan-1'') []) = Inr (drawing_pen [(Fin 0.1, Fin 0.1), (Fin 0.2, Fin 0.2)])"
  by (simp add: mounted_def drawing_pen_def pen_stroke_def onPointerDown_def onPointerMove_def
        toNorm_square_page)

theorem pointer_up_commit_thresholds_witness:
  "run [SetTool PenTool, PointerDown square_page 10 10 ''0'', PointerMove square_page 20 20]
     (mounted (Some ''scan-1'') []) = Inr (drawing_pen [(Fin 0.1, Fin 0.1), (Fin 0.2, Fin 0.2)])
   \<and> committed (drawing_pen [(Fin 0.1, Fin 0.1), (Fin 0.2, Fin 0.2)])
        (onPointerUp ''1'' (drawing_pen [(Fin 0.1, Fin 0.1), (Fin 0.2, Fin 0.2)]))
        (PenAnnotation (example_base (fresh_id ''1'')) [(Fin 0.1, Fin 0.1), (Fin 0.2, Fin 0.2)] None)
   \<and> discarded (drawing_pen [(Fin 0.1, Fin 0.1)]) (onPointerUp ''1'' (drawing_pen [(Fin 0.1, Fin 0.1)]))
   \<and> committed (drawing_shape RectTool (Fin 0.1) (Fin 0.1) (Fin 0.5) (Fin 0.5))
        (onPointerUp ''1'' (drawing_shape RectTool (Fin 0.1) (Fin 0.1) (Fin 0.5) (Fin 0.5)))
        (box (fresh_id ''1'') 0.1 0.1 0.4 0.4)
   \<and> discarded (drawing_shape RectTool (Fin 0.1) (Fin 0.1) (Fin 0.5) (Fin 0.105))
        (onPointerUp ''1'' (drawing_shape RectTool (Fin 0.1) (Fin 0.1) (Fin 0.5) (Fin 0.105)))
   \<and> discarded (drawing_shape RectTool (Fin 0.1) (Fin 0.1) (Fin 0.5) NaN)
        (onPointerUp ''1'' (drawing_shape RectTool (Fin 0.1) (Fin 0.1) (Fin 0.5) NaN))
   \<and> discarded (drawing_shape ArrowTool (Fin 0) (Fin 0) (Fin 0.01) (Fin 0.01))
        (onPointerUp ''1'' (drawing_shape ArrowTool (Fin 0) (Fin 0) (Fin 0.01) (Fin 0.01)))"
proof -
  let ?two = "[(Fin 0.1, Fin 0.1), (Fin 0.2, Fin 0.2)]"
  let ?one = "[(Fin 0.1, Fin 0.1)] :: point list"
  have b: "example_base (fresh_id ''1'') =
             \<lparr>ann_id = fresh_id ''1'', ann_color = cur_color (drawing_pen ps),
              ann_size = cur_size (drawing_pen ps), linkedFieldId = None\<rparr>" for ps
    by (simp add: example_base_def drawing_pen_def mounted_def)
  have c: "example_base (fresh_id ''1'') =
             \<lparr>ann_id = fresh_id ''1'', ann_color = cur_color (drawing_shape t sx sy cx cy),
              ann_size = cur_size (drawing_shape t sx sy cx cy), linkedFieldId = None\<rparr>"
    for t sx sy cx cy
    by (simp add: example_base_def drawing_shape_def mounted_def)
  have ip: "truthy (baseImage (drawing_pen ps))"
    and dp: "drawing (drawing_pen ps) = Some (pen_stroke ps)" for ps
    by (simp_all add: drawing_pen_def mounted_def)
  have "is": "truthy (baseImage (drawing_shape t sx sy cx cy))"
    and ds: "drawing (drawing_shape t sx sy cx cy) = Some (shape_drawn t sx sy cx cy)"
    for t sx sy cx cy
    by (simp_all add: drawing_shape_def mounted_def)
  from pointer_up_commit_thresholds [OF ip [where ps = ?two] dp [where ps = ?two]
      b [where ps = ?two] refl, where ps = ?two]
  have two: "committed (drawing_pen ?two) (onPointerUp ''1'' (drawing_pen ?two))
        (PenAnnotation (example_base (fresh_id ''1'')) ?two None)"
    by (simp add: pen_stroke_def)
  from pointer_up_commit_thresholds [OF ip [where ps = ?one] dp [where ps = ?one]
      b [where ps = ?one] refl, where ps = ?one]
  have one: "discarded (drawing_pen ?one) (onPointerUp ''1'' (drawing_pen ?one))"
    by (simp add: pen_stroke_def)
  from pointer_up_commit_thresholds [OF
      "is" [where t = RectTool and sx = "Fin 0.1" and sy = "Fin 0.1" and cx = "Fin 0.5" and cy = "Fin 0.5"]
      ds [where t = RectTool and sx = "Fin 0.1" and sy = "Fin 0.1" and cx = "Fin 0.5" and cy = "Fin 0.5"]
      c [where t = RectTool and sx = "Fin 0.1" and sy = "Fin 0.1" and cx = "Fin 0.5" and cy = "Fin 0.5"] refl,
      where sx = "0.1" and sy = "0.1" and rx = "0.5" and ry = "0.5"]
  have big: "committed (drawing_shape RectTool (Fin 0.1) (Fin 0.1) (Fin 0.5) (Fin 0.5))
        (onPointerUp ''1'' (drawing_shape RectTool (Fin 0.1) (Fin 0.1) (Fin 0.5) (Fin 0.5)))
        (box (fresh_id ''1'') 0.1 0.1 0.4 0.4)"
    by (simp add: shape_drawn_def box_def)
  from pointer_up_commit_thresholds [OF
      "is" [where t = RectTool and sx = "Fin 0.1" and sy = "Fin 0.1" and cx = "Fin 0.5" and cy = "Fin 0.105"]
      ds [where t = RectTool and sx = "Fin 0.1" and sy = "Fin 0.1" and cx = "Fin 0.5" and cy = "Fin 0.105"]
      c [where t = RectTool and sx = "Fin 0.1" and sy = "Fin 0.1" and cx = "Fin 0.5" and cy = "Fin 0.105"] refl,
      where sx = "0.1" and sy = "0.1" and rx = "0.5" and ry = "0.105"]
  have flat: "discarded (drawing_shape RectTool (Fin 0.1) (Fin 0.1) (Fin 0.5) (Fin 0.105))
        (onPointerUp ''1'' (drawing_shape RectTool (Fin 0.1) (Fin 0.1) (Fin 0.5) (Fin 0.105)))"
    by (simp add: shape_drawn_def)
  from pointer_up_commit_thresholds [OF
      "is" [where t = RectTool and sx = "Fin 0.1" and sy = "Fin 0.1" and cx = "Fin 0.5" and cy = NaN]
      ds [where t = RectTool and sx = "Fin 0.1" and sy = "Fin 0.1" and cx = "Fin 0.5" and cy = NaN]
      c [where t = RectTool and sx = "Fin 0.1" and sy = "Fin 0.1" and cx = "Fin 0.5" and cy = NaN] refl,
      where cx = "Fin 0.5" and cy = NaN]
  have nan: "discarded (drawing_shape RectTool (Fin 0.1) (Fin 0.1) (Fin 0.5) NaN)
        (onPointerUp ''1'' (drawing_shape RectTool (Fin 0.1) (Fin 0.1) (Fin 0.5) NaN))"
    by (simp add: shape_drawn_def)
  from pointer_up_commit_thresholds [OF
      "is" [where t = ArrowTool and sx = "Fin 0" and sy = "Fin 0" and cx = "Fin 0.01" and cy = "Fin 0.01"]
      ds [where t = ArrowTool and sx = "Fin 0" and sy = "Fin 0" and cx = "Fin 0.01" and cy = "Fin 0.01"]
      c [where t = ArrowTool and sx = "Fin 0" and sy = "Fin 0" and cx = "Fin 0.01" and cy = "Fin 0.01"] refl]
  have short: "discarded (drawing_shape ArrowTool (Fin 0) (Fin 0) (Fin 0.01) (Fin 0.01))
        (onPointerUp ''1'' (drawing_shape ArrowTool (Fin 0) (Fin 0) (Fin 0.01) (Fin 0.01)))"
    by (simp add: shape_drawn_def)
  from run_pen_gesture two one big flat nan short show ?thesis by simp
qed

subsection \<open>Dragging\<close>

text \<open>Two facts about the handlers that the properties of drags share.\<close>

lemma findIndex_Some:
  "findIndex p xs = Some i \<Longrightarrow> i < length xs \<and> p (xs ! i) \<and> (\<forall>j<i. \<not> p (xs ! j))"
proof (induction xs arbitrary: i)
  case Nil
  then show ?case by simp
next
  case (Cons x xs)
  show ?case
  proof (cases "p x")
    case True
    with Cons.prems show ?thesis by simp
  next
    case False
    with Cons.prems obtain k where k: "findIndex p xs = Some k" "i = Suc k"
      by auto
    from Cons.IH [OF k(1)] False k(2) show ?thesis
      by (auto simp: less_Suc_eq_0_disj)
  qed
qed

lemma drag_move:
  assumes "dragging e dr idx"
  shows "onPointerMove L clientX clientY e =
           e\<lparr>annotations :=
               (annotations e)[idx := updated dr (toNorm L clientX clientY) (annotations e ! idx)],
             dragRef := Some (dr\<lparr>prevX := fst (toNorm L clientX clientY),
                                prevY := snd (toNorm L clientX clientY)\<rparr>)\<rparr>"
  using assms by (simp add: dragging_def onPointerMove_def Let_def)

text \<open>
  The page whose image has no extent yet: every handle of a rectangle and every end of an
  arrow is drawn at the corner \<open>(10, 20)\<close> of the image, a pointer to the right of and
  below that corner has the position \<open>(1, 1)\<close>, and a pointer to the right of the corner
  at its height has the first coordinate \<open>1\<close> and no second coordinate.
\<close>

lemma cont_unloaded_page:
  "cont unloaded_page = Some \<lparr>rleft = 0, rtop = 0, rwidth = 300, rheight = 200\<rparr>"
  by (simp add: unloaded_page_def)

lemma fromNorm_unloaded_page: "fromNorm unloaded_page (Fin x) (Fin y) = (Fin 10, Fin 20)"
  by (simp add: fromNorm_def imageDims_def unloaded_page_def)

lemma toNorm_unloaded_below: "toNorm unloaded_page 15 25 = (Fin 1, Fin 1)"
  by (simp add: toNorm_def unloaded_page_def imageDims_def)

lemma toNorm_unloaded_beside: "toNorm unloaded_page 15 20 = (Fin 1, NaN)"
  by (simp add: toNorm_def unloaded_page_def imageDims_def)

text \<open>
  C7. The claim: after a move every positional coordinate of the moved annotation is in
  \<open>[0, 1]\<close>. A text label at \<open>(1, 1)\<close>, which is in bounds, is grabbed with the select tool
  on the page whose image has no extent, and the pointer moves up by five pixels: the
  position of the move has no second coordinate (the defect of \<^verbatim>\<open>toNorm\<close>, C3), the move
  delta is NaN, \<^verbatim>\<open>clamp\<close> lets NaN through, and the moved label is stored with \<open>y = NaN\<close>.
\<close>

theorem move_stores_NaN:
  "in_bounds (text_at ''1'' 1 1)
   \<and> run [PointerDown unloaded_page 15 25 ''0'', PointerMove unloaded_page 15 20]
        (mounted (Some ''scan-1'') [text_at ''1'' 1 1])
     = Inr ((grabbed
               [TextAnnotation (example_base (fresh_id ''1'')) (Fin 1) NaN ''Click to edit'']
               (fresh_id ''1'') (held MoveMode None (fresh_id ''1'') (Fin 1) NaN))
              \<lparr>editingTextId := Some (fresh_id ''1''), undoStack := [[text_at ''1'' 1 1]]\<rparr>)
   \<and> \<not> in_bounds (TextAnnotation (example_base (fresh_id ''1'')) (Fin 1) NaN ''Click to edit'')"
  by (simp add: mounted_def grabbed_def held_def text_at_def example_base_def
        onPointerDown_def select_down_def getAnnotationAt_def
        toNorm_unloaded_below toNorm_unloaded_beside cont_unloaded_page
        id_of_def fresh_id_def tolerance_def Let_def
        onPointerMove_def updated_def clamp_def)

text \<open>
  C8. The claim: a corner resize keeps the width and the height of the rectangle
  non-negative and the box within \<open>[0, 1]\<close>. The rectangle with \<open>x = y = 0.7\<close> and
  \<open>width = height = 0.3\<close>, which is in bounds, is grabbed on the page whose image has no
  extent: its four handles are at the same pixel, less than ten pixels from the pointer,
  so the first of them, \<^verbatim>\<open>nw\<close>, is dragged. The pointer moves up by five pixels: the position
  of the move has no second coordinate (the defect of \<^verbatim>\<open>toNorm\<close>, C3), and the rectangle is
  stored with \<open>y = NaN\<close> and \<open>height = NaN\<close>.
\<close>

theorem resize_stores_NaN:
  "in_bounds (box ''r'' 0.7 0.7 0.3 0.3)
   \<and> run [PointerDown unloaded_page 15 25 ''0'', PointerMove unloaded_page 15 20]
        (mounted (Some ''scan-1'') [box ''r'' 0.7 0.7 0.3 0.3])
     = Inr ((grabbed [RectAnnotation (example_base ''r'') (Fin 1) NaN (Fin 0) NaN] ''r''
               (held ResizeRect (Some NW) ''r'' (Fin 1) NaN))
              \<lparr>undoStack := [[box ''r'' 0.7 0.7 0.3 0.3]]\<rparr>)
   \<and> \<not> in_bounds (RectAnnotation (example_base ''r'') (Fin 1) NaN (Fin 0) NaN)"
  by (simp add: mounted_def grabbed_def held_def box_def example_base_def
        onPointerDown_def select_down_def getAnnotationAt_def
        toNorm_unloaded_below toNorm_unloaded_beside cont_unloaded_page fromNorm_unloaded_page
        id_of_def tolerance_def js_hypot_less Let_def
        onPointerMove_def updated_def clamp_def)

text \<open>
  The scenario of the specification, on the page where the image has its extent: the \<^verbatim>\<open>se\<close> corner of the
  rectangle with \<open>x = y = 0.2\<close> is dragged to \<open>(0.9, 0.9)\<close>, and the rectangle has the width
  and the height 0.7 and the same \<open>x\<close> and \<open>y\<close>.
\<close>

lemma resize_se_scenario:
  "run [PointerDown square_page 50 50 ''0'', PointerMove square_page 90 90]
        (mounted (Some ''scan-1'') [box ''r'' 0.2 0.2 0.3 0.3])
     = Inr ((grabbed [box ''r'' 0.2 0.2 0.7 0.7] ''r''
               (held ResizeRect (Some SE) ''r'' (Fin 0.9) (Fin 0.9)))
              \<lparr>undoStack := [[box ''r'' 0.2 0.2 0.3 0.3]]\<rparr>)"
  by (simp add: mounted_def grabbed_def held_def box_def example_base_def
        onPointerDown_def select_down_def getAnnotationAt_def
        toNorm_square_page cont_square_page fromNorm_square_page
        id_of_def tolerance_def js_hypot_less Let_def
        onPointerMove_def updated_def clamp_def)

text \<open>
  C9. The claim: dragging an end of an arrow gives that end coordinates clamped to
  \<open>[0, 1]\<close>. The arrow from \<open>(1, 1)\<close> to \<open>(0.5, 0.5)\<close>, which is in bounds, is grabbed at its
  start on the page whose image has no extent, and the pointer moves up by five pixels: the
  position of the move has no second coordinate (the defect of \<^verbatim>\<open>toNorm\<close>, C3), and the
  arrow is stored with \<open>y1 = NaN\<close>. (The other end and the fields \<^verbatim>\<open>id\<close>, \<^verbatim>\<open>color\<close>, \<^verbatim>\<open>size\<close>
  and \<^verbatim>\<open>linkedFieldId\<close> are as before, as the claim says.)
\<close>

theorem arrow_end_stores_NaN:
  "in_bounds (arrow_from ''r'' 1 1 0.5 0.5)
   \<and> run [PointerDown unloaded_page 15 25 ''0'', PointerMove unloaded_page 15 20]
        (mounted (Some ''scan-1'') [arrow_from ''r'' 1 1 0.5 0.5])
     = Inr ((grabbed [ArrowAnnotation (example_base ''r'') (Fin 1) NaN (Fin 0.5) (Fin 0.5)] ''r''
               (held ArrowStart None ''r'' (Fin 1) NaN))
              \<lparr>undoStack := [[arrow_from ''r'' 1 1 0.5 0.5]]\<rparr>)
   \<and> \<not> in_unit NaN"
  by (simp add: mounted_def grabbed_def held_def arrow_from_def example_base_def
        onPointerDown_def select_down_def getAnnotationAt_def distanceToLine_def js_sqrt_def
        toNorm_unloaded_below toNorm_unloaded_beside cont_unloaded_page fromNorm_unloaded_page
        id_of_def tolerance_def js_hypot_less Let_def
        onPointerMove_def updated_def clamp_def)

text \<open>
  What holds of the three kinds of drag when the positions are numbers, as they are on a
  page whose image has a width and a height other than zero: a move keeps an annotation in
  bounds, a corner resize keeps a rectangle in bounds, and a dragged end of an arrow is in
  the unit square, the other end and the base fields being as before.
\<close>

lemma in_unit_Fin: "in_unit v \<Longrightarrow> \<exists>r. v = Fin r \<and> 0 \<le> r \<and> r \<le> 1"
  by (cases v) simp_all

lemma in_bounds_rect_Fin:
  assumes "in_bounds (RectAnnotation b x y w h)"
  shows "\<exists>rx ry rw rh. x = Fin rx \<and> y = Fin ry \<and> w = Fin rw \<and> h = Fin rh
           \<and> 0 \<le> rw \<and> 0 \<le> rh \<and> 0 \<le> rx \<and> rx \<le> 1 - rw \<and> 0 \<le> ry \<and> ry \<le> 1 - rh"
proof -
  from assms have "\<exists>rx rw. x = Fin rx \<and> w = Fin rw \<and> 0 \<le> rw \<and> 0 \<le> rx \<and> rx \<le> 1 - rw"
    by (cases x; cases w) simp_all
  moreover from assms have "\<exists>ry rh. y = Fin ry \<and> h = Fin rh \<and> 0 \<le> rh \<and> 0 \<le> ry \<and> ry \<le> 1 - rh"
    by (cases y; cases h) simp_all
  ultimately show ?thesis by blast
qed

lemma move_by_in_bounds:
  assumes "in_bounds a"
  shows "in_bounds (move_by (Fin dx) (Fin dy) a)"
proof (cases a)
  case (PenAnnotation b ps opacity)
  have "in_unit (clamp (js_add v (Fin d)) (Fin 0) (Fin 1))" if "in_unit v" for v d
    using in_unit_Fin [OF that] by (auto simp: clamp_def)
  with assms PenAnnotation show ?thesis
    by (simp add: list_all_iff)
next
  case (RectAnnotation b x y w h)
  with assms in_bounds_rect_Fin obtain rx ry rw rh
    where "x = Fin rx" "y = Fin ry" "w = Fin rw" "h = Fin rh"
      "0 \<le> rw" "0 \<le> rh" "0 \<le> rx" "rx \<le> 1 - rw" "0 \<le> ry" "ry \<le> 1 - rh"
    by blast
  with RectAnnotation show ?thesis
    by (simp add: clamp_def)
next
  case (ArrowAnnotation b x1 y1 x2 y2)
  have "in_unit (clamp (js_add v (Fin d)) (Fin 0) (Fin 1))" if "in_unit v" for v d
    using in_unit_Fin [OF that] by (auto simp: clamp_def)
  with assms ArrowAnnotation show ?thesis by simp
next
  case (TextAnnotation b x y t)
  have "in_unit (clamp (js_add v (Fin d)) (Fin 0) (Fin 1))" if "in_unit v" for v d
    using in_unit_Fin [OF that] by (auto simp: clamp_def)
  with assms TextAnnotation show ?thesis by simp
qed

lemma resize_rect_in_bounds:
  assumes "in_bounds (RectAnnotation b x y w h)" and "in_unit (fst nrm)" and "in_unit (snd nrm)"
  shows "in_bounds (resize_rect c nrm (RectAnnotation b x y w h))"
proof -
  from assms(1) in_bounds_rect_Fin obtain rx ry rw rh
    where r: "x = Fin rx" "y = Fin ry" "w = Fin rw" "h = Fin rh"
      "0 \<le> rw" "0 \<le> rh" "0 \<le> rx" "rx \<le> 1 - rw" "0 \<le> ry" "ry \<le> 1 - rh"
    by blast
  from assms(2,3) in_unit_Fin obtain px py
    where p: "nrm = (Fin px, Fin py)" "0 \<le> px" "px \<le> 1" "0 \<le> py" "py \<le> 1"
    by (metis prod.collapse)
  show ?thesis
  proof (cases c)
    case None
    with assms(1) show ?thesis by simp
  next
    case (Some k)
    show ?thesis
    proof (cases k)
      case NW
      with Some r p show ?thesis by (auto simp: clamp_def max_def min_def)
    next
      case NE
      with Some r p show ?thesis by (auto simp: clamp_def max_def min_def)
    next
      case SW
      with Some r p show ?thesis by (auto simp: clamp_def max_def min_def)
    next
      case SE
      with Some r p show ?thesis by (auto simp: clamp_def max_def min_def)
    qed
  qed
qed

lemma move_arrow_end_frame:
  assumes "in_unit (fst nrm)" and "in_unit (snd nrm)"
  shows "move_arrow_end ArrowStart nrm (ArrowAnnotation b x1 y1 x2 y2)
           = ArrowAnnotation b (fst nrm) (snd nrm) x2 y2
         \<and> move_arrow_end ArrowEnd nrm (ArrowAnnotation b x1 y1 x2 y2)
           = ArrowAnnotation b x1 y1 (fst nrm) (snd nrm)"
proof -
  have "clamp v (Fin 0) (Fin 1) = v" if "in_unit v" for v
    using in_unit_Fin [OF that] by (auto simp: clamp_def)
  with assms show ?thesis by simp
qed

text \<open>
  So on a page whose image has a width and a height other than zero, a pointer-move of a
  drag that holds an annotation in bounds, at a previous position in the unit square,
  leaves the annotation in bounds.
\<close>

lemma drag_in_bounds_nondegenerate:
  assumes d: "dragging e dr idx"
    and w: "rwidth (imageDims L) \<noteq> 0" "rheight (imageDims L) \<noteq> 0"
    and prev: "in_unit (prevX dr)" "in_unit (prevY dr)"
    and a: "in_bounds (annotations e ! idx)"
  shows "in_bounds (annotations (onPointerMove L x y e) ! idx)"
proof -
  let ?n = "toNorm L x y"
  from toNorm_nondegenerate [OF w, of x y]
  have n: "in_unit (fst ?n)" "in_unit (snd ?n)" by simp_all
  from n prev in_unit_Fin obtain px py qx qy
    where f: "fst ?n = Fin px" "snd ?n = Fin py" "prevX dr = Fin qx" "prevY dr = Fin qy"
    by metis
  have u: "in_bounds (updated dr ?n (annotations e ! idx))"
  proof (cases "annotations e ! idx")
    case (RectAnnotation b rx ry rw rh)
    with a n resize_rect_in_bounds [of b rx ry rw rh ?n "corner dr"]
      move_by_in_bounds [of "annotations e ! idx" "px - qx" "py - qy"] f
    show ?thesis by (simp add: updated_def Let_def)
  next
    case (ArrowAnnotation b x1 y1 x2 y2)
    with a n move_arrow_end_frame [OF n, of b x1 y1 x2 y2]
      move_by_in_bounds [of "annotations e ! idx" "px - qx" "py - qy"] f
    show ?thesis by (cases "mode dr") (simp_all add: updated_def Let_def)
  next
    case (PenAnnotation b ps opacity)
    with a move_by_in_bounds [of "annotations e ! idx" "px - qx" "py - qy"] f
    show ?thesis by (simp add: updated_def Let_def)
  next
    case (TextAnnotation b tx ty t)
    with a move_by_in_bounds [of "annotations e ! idx" "px - qx" "py - qy"] f
    show ?thesis by (simp add: updated_def Let_def)
  qed
  from d have "idx < length (annotations e)"
    using findIndex_Some by (fastforce simp: dragging_def)
  with u show ?thesis
    by (simp add: drag_move [OF d])
qed

subsection \<open>Hit testing\<close>

text \<open>
  A comparison with a number succeeds only on numbers: the results of the arithmetic
  operations are numbers only when the operands are.
\<close>

lemma js_add_Fin: "js_add a b = Fin r \<Longrightarrow> \<exists>u v. a = Fin u \<and> b = Fin v \<and> r = u + v"
  by (cases a; cases b) simp_all

lemma js_sub_Fin: "js_sub a b = Fin r \<Longrightarrow> \<exists>u v. a = Fin u \<and> b = Fin v \<and> r = u - v"
  by (cases a; cases b) simp_all

lemma js_sub_numbers: "js_sub (Fin a) (Fin b) = Fin (a - b)"
  by simp

lemma js_mul_Fin: "js_mul a b = Fin r \<Longrightarrow> \<exists>u v. a = Fin u \<and> b = Fin v \<and> r = u * v"
  by (cases a; cases b) (simp_all split: if_splits)

lemma js_sqrt_lt_Fin: "js_lt (js_sqrt v) (Fin t) \<Longrightarrow> \<exists>r. v = Fin r"
  by (cases v) (simp_all add: js_sqrt_def)

lemma js_sqrt_less:
  "0 \<le> t \<Longrightarrow> js_lt (js_sqrt (Fin v)) (Fin t) \<longleftrightarrow> 0 \<le> v \<and> v < t\<^sup>2"
proof -
  assume t: "0 \<le> t"
  have "sqrt v < t \<longleftrightarrow> v < t\<^sup>2" if "0 \<le> v"
    using t by (metis real_sqrt_less_iff real_sqrt_abs abs_of_nonneg)
  then show ?thesis by (auto simp: js_sqrt_def)
qed

lemma near_axis:
  "js_lt (js_abs (js_sub u v)) (Fin t) \<longleftrightarrow> (\<exists>a b. u = Fin a \<and> v = Fin b \<and> \<bar>a - b\<bar> < t)"
  by (cases u; cases v) simp_all

text \<open>
  \<^verbatim>\<open>distanceToLine\<close> on numbers is the distance of the position to one point of the segment,
  and no point of the segment is nearer.
\<close>

lemma foot_unit: "0 \<le> foot px py x1 y1 x2 y2 \<and> foot px py x1 y1 x2 y2 \<le> 1"
  by (simp add: foot_def Let_def)

lemma distanceToLine_Fin:
  "distanceToLine (Fin px) (Fin py) (Fin x1) (Fin y1) (Fin x2) (Fin y2)
     = Fin (euclid px py (on_segment x1 y1 x2 y2 (foot px py x1 y1 x2 y2)))"
  by (simp add: distanceToLine_def foot_def euclid_def on_segment_def Let_def js_sqrt_def
        not_sum_squares_lt_zero js_sub_numbers del: js_sub.simps)

lemma sq_diff:
  fixes A B C D t s :: real
  shows "((A - t * C) * (A - t * C) + (B - t * D) * (B - t * D))
         - ((A - s * C) * (A - s * C) + (B - s * D) * (B - s * D))
         = (t - s) * ((t + s) * (C * C + D * D) - 2 * (A * C + B * D))"
  by (simp add: algebra_simps)

lemma foot_least_sq:
  fixes A B C D t :: real
  assumes "0 \<le> t" "t \<le> 1"
  defines "L \<equiv> C * C + D * D" and "dot \<equiv> A * C + B * D"
  defines "s \<equiv> (let param = (if L \<noteq> 0 then dot / L else - 1)
                  in if param < 0 then 0 else if 1 < param then 1 else param)"
  shows "0 \<le> (t - s) * ((t + s) * L - 2 * dot)"
proof (cases "L = 0")
  case True
  then have "C = 0" "D = 0" unfolding L_def by (simp_all add: sum_squares_eq_zero_iff)
  then have "dot = 0" "L = 0" unfolding dot_def L_def by simp_all
  then show ?thesis by simp
next
  case False
  have Lpos: "0 < L" using False unfolding L_def
    by (metis not_sum_squares_lt_zero less_eq_real_def linorder_not_less)
  let ?p = "dot / L"
  have d: "dot = ?p * L" using False by simp
  consider (lo) "?p < 0" | (hi) "\<not> ?p < 0" "1 < ?p" | (mid) "\<not> ?p < 0" "\<not> 1 < ?p" by blast
  then show ?thesis
  proof cases
    case lo
    then have s0: "s = 0" using False by (simp add: s_def)
    from lo Lpos have "dot < 0" by (simp add: divide_less_0_iff)
    with assms(1) Lpos have "0 \<le> t * L - 2 * dot"
      by (smt (verit) mult_nonneg_nonneg less_eq_real_def)
    with assms(1) s0 show ?thesis by simp
  next
    case hi
    then have s1: "s = 1" using False by (simp add: s_def)
    from hi(2) Lpos have "L < dot" by (simp add: less_divide_eq)
    moreover from assms(2) Lpos have "(t + 1) * L \<le> 2 * L"
      by (simp add: mult_right_mono)
    ultimately have "(t + 1) * L - 2 * dot \<le> 0" by simp
    with assms(2) s1 show ?thesis
      by (simp add: mult_nonpos_nonpos)
  next
    case mid
    then have sp: "s = ?p" using False by (simp add: s_def)
    have e: "(t - ?p) * ((t + ?p) * L - 2 * dot) = (t - ?p) * (t - ?p) * L"
      using False by (simp add: field_simps)
    have n: "0 \<le> (t - ?p) * (t - ?p) * L"
      using Lpos by simp
    show ?thesis unfolding sp e by (rule n)
  qed
qed

lemma foot_least:
  assumes "0 \<le> t" "t \<le> 1"
  shows "euclid px py (on_segment x1 y1 x2 y2 (foot px py x1 y1 x2 y2))
           \<le> euclid px py (on_segment x1 y1 x2 y2 t)"
proof -
  let ?A = "px - x1" and ?B = "py - y1" and ?C = "x2 - x1" and ?D = "y2 - y1"
  let ?s = "foot px py x1 y1 x2 y2"
  have s: "?s = (let param = (if ?C * ?C + ?D * ?D \<noteq> 0
                     then (?A * ?C + ?B * ?D) / (?C * ?C + ?D * ?D) else - 1)
                  in if param < 0 then 0 else if 1 < param then 1 else param)"
    by (simp add: foot_def Let_def)
  have "0 \<le> (t - ?s) * ((t + ?s) * (?C * ?C + ?D * ?D) - 2 * (?A * ?C + ?B * ?D))"
    unfolding s using assms by (rule foot_least_sq)
  then have "(?A - ?s * ?C) * (?A - ?s * ?C) + (?B - ?s * ?D) * (?B - ?s * ?D)
        \<le> (?A - t * ?C) * (?A - t * ?C) + (?B - t * ?D) * (?B - t * ?D)"
    using sq_diff [of ?A t ?C ?B ?D ?s] by simp
  moreover have "px - (x1 + u * ?C) = ?A - u * ?C" "py - (y1 + u * ?D) = ?B - u * ?D" for u
    by simp_all
  ultimately show ?thesis
    unfolding euclid_def on_segment_def
    by (simp only: fst_conv snd_conv real_sqrt_le_iff)
qed

text \<open>
  When the difference of the ends of the segment is no number on one axis, the projection
  parameter is zero or NaN, so that \<^verbatim>\<open>distanceToLine\<close> takes its third branch and the point it
  measures to has a coordinate NaN.
\<close>

lemma param_degenerate:
  assumes "(\<forall>r. C \<noteq> Fin r) \<or> (\<forall>r. D \<noteq> Fin r)"
  shows "js_add (js_mul C C) (js_mul D D) \<noteq> Fin 0
         \<and> (js_div dot (js_add (js_mul C C) (js_mul D D)) = NaN
            \<or> js_div dot (js_add (js_mul C C) (js_mul D D)) = Fin 0)"
  using assms by (cases C; cases D; cases dot) simp_all

text \<open>
  A distance that \<^verbatim>\<open>distanceToLine\<close> gives is below a number only when the position and the
  ends of the segment are numbers.
\<close>

lemma distanceToLine_lt_Fin:
  assumes lt: "js_lt (distanceToLine px py x1 y1 x2 y2) (Fin t)"
  shows "\<exists>a b c d e f. px = Fin a \<and> py = Fin b \<and> x1 = Fin c \<and> y1 = Fin d
           \<and> x2 = Fin e \<and> y2 = Fin f"
proof -
  define C where "C = js_sub x2 x1"
  define D where "D = js_sub y2 y1"
  define dot where "dot = js_add (js_mul (js_sub px x1) C) (js_mul (js_sub py y1) D)"
  define lenSq where "lenSq = js_add (js_mul C C) (js_mul D D)"
  define param where "param = (if lenSq \<noteq> Fin 0 then js_div dot lenSq else Fin (- 1))"
  define xx where "xx = (if js_lt param (Fin 0) then x1
                else if js_lt (Fin 1) param then x2
                else js_add x1 (js_mul param C))"
  define yy where "yy = (if js_lt param (Fin 0) then y1
                else if js_lt (Fin 1) param then y2
                else js_add y1 (js_mul param D))"
  have d: "distanceToLine px py x1 y1 x2 y2
             = js_sqrt (js_add (js_mul (js_sub px xx) (js_sub px xx))
                               (js_mul (js_sub py yy) (js_sub py yy)))"
    by (simp add: distanceToLine_def Let_def C_def D_def dot_def lenSq_def param_def
          xx_def yy_def)
  from lt obtain r where "js_add (js_mul (js_sub px xx) (js_sub px xx))
                               (js_mul (js_sub py yy) (js_sub py yy)) = Fin r"
    unfolding d using js_sqrt_lt_Fin by blast
  then obtain u v where "js_mul (js_sub px xx) (js_sub px xx) = Fin u"
    "js_mul (js_sub py yy) (js_sub py yy) = Fin v"
    using js_add_Fin by blast
  then obtain dx dy where "js_sub px xx = Fin dx" "js_sub py yy = Fin dy"
    using js_mul_Fin by blast
  then obtain a b xr yr where p: "px = Fin a" "py = Fin b" and f: "xx = Fin xr" "yy = Fin yr"
    using js_sub_Fin by blast
  have CD: "(\<exists>c. C = Fin c) \<and> (\<exists>c. D = Fin c)"
  proof (rule ccontr)
    assume "\<not> ((\<exists>c. C = Fin c) \<and> (\<exists>c. D = Fin c))"
    then have n: "(\<forall>r. C \<noteq> Fin r) \<or> (\<forall>r. D \<noteq> Fin r)" by blast
    from param_degenerate [OF n, of dot]
    have "param = NaN \<or> param = Fin 0"
      by (simp add: param_def lenSq_def)
    then have "xx = js_add x1 (js_mul param C)" "yy = js_add y1 (js_mul param D)"
      by (auto simp: xx_def yy_def)
    with f obtain m k where "js_mul param C = Fin m" "js_mul param D = Fin k"
      using js_add_Fin by metis
    then have "(\<exists>c. C = Fin c) \<and> (\<exists>c. D = Fin c)"
      using js_mul_Fin by blast
    with n show False by blast
  qed
  then obtain c1 c2 where "js_sub x2 x1 = Fin c1" "js_sub y2 y1 = Fin c2"
    unfolding C_def D_def by blast
  then obtain c d e f where "x1 = Fin c" "y1 = Fin d" "x2 = Fin e" "y2 = Fin f"
    using js_sub_Fin by blast
  with p show ?thesis by blast
qed

text \<open>
  So the test of \<^verbatim>\<open>getAnnotationAt\<close> on a segment holds exactly when some point of the
  segment is nearer to the position than the tolerance.
\<close>

lemma hit_segment:
  "js_lt (distanceToLine (fst nrm) (snd nrm) (fst p) (snd p) (fst q) (snd q)) (Fin tolerance)
     \<longleftrightarrow> near_segment nrm p q"
proof
  assume lt: "js_lt (distanceToLine (fst nrm) (snd nrm) (fst p) (snd p) (fst q) (snd q))
                (Fin tolerance)"
  from distanceToLine_lt_Fin [OF lt] obtain a b c d e f
    where n: "fst nrm = Fin a" "snd nrm = Fin b" "fst p = Fin c" "snd p = Fin d"
      "fst q = Fin e" "snd q = Fin f"
    by blast
  then have eq: "nrm = (Fin a, Fin b)" "p = (Fin c, Fin d)" "q = (Fin e, Fin f)"
    by (simp_all add: prod_eq_iff)
  from lt have "euclid a b (on_segment c d e f (foot a b c d e f)) < tolerance"
    by (simp add: n distanceToLine_Fin)
  with foot_unit [of a b c d e f] eq show "near_segment nrm p q"
    unfolding near_segment_def by blast
next
  assume "near_segment nrm p q"
  then obtain a b c d e f t
    where eq: "nrm = (Fin a, Fin b)" "p = (Fin c, Fin d)" "q = (Fin e, Fin f)"
      and t: "0 \<le> t" "t \<le> 1" "euclid a b (on_segment c d e f t) < tolerance"
    unfolding near_segment_def by blast
  from foot_least [OF t(1,2)] t(3)
  have "euclid a b (on_segment c d e f (foot a b c d e f)) < tolerance"
    by (rule le_less_trans)
  then show "js_lt (distanceToLine (fst nrm) (snd nrm) (fst p) (snd p) (fst q) (snd q))
                (Fin tolerance)"
    by (simp add: eq distanceToLine_Fin)
qed

text \<open>The inner loop: a pen stroke is hit when one of its segments is near the position.\<close>

lemma pen_hit_iff:
  "pen_hit nrm ps \<longleftrightarrow> (\<exists>j. Suc j < length ps \<and> near_segment nrm (ps ! j) (ps ! Suc j))"
proof (induction nrm ps rule: pen_hit.induct)
  case (1 nrm p q ps)
  let ?near = "\<lambda>xs j. near_segment nrm (xs ! j) (xs ! Suc j)"
  show ?case
  proof (cases "near_segment nrm p q")
    case True
    then have "Suc 0 < length (p # q # ps) \<and> ?near (p # q # ps) 0" by simp
    then have "\<exists>j. Suc j < length (p # q # ps) \<and> ?near (p # q # ps) j" by blast
    with True show ?thesis by (simp add: hit_segment)
  next
    case False
    have "(\<exists>j. Suc j < length (p # q # ps) \<and> ?near (p # q # ps) j)
          \<longleftrightarrow> (\<exists>j. Suc j < length (q # ps) \<and> ?near (q # ps) j)"
    proof
      assume "\<exists>j. Suc j < length (p # q # ps) \<and> ?near (p # q # ps) j"
      then obtain j where j: "Suc j < length (p # q # ps)" "?near (p # q # ps) j" by blast
      with False obtain k where "j = Suc k" by (cases j) auto
      with j show "\<exists>j. Suc j < length (q # ps) \<and> ?near (q # ps) j" by auto
    next
      assume "\<exists>j. Suc j < length (q # ps) \<and> ?near (q # ps) j"
      then obtain j where "Suc j < length (q # ps)" "?near (q # ps) j" by blast
      then have "Suc (Suc j) < length (p # q # ps) \<and> ?near (p # q # ps) (Suc j)" by simp
      then show "\<exists>j. Suc j < length (p # q # ps) \<and> ?near (p # q # ps) j" by blast
    qed
    with False "1.IH" show ?thesis by (simp add: hit_segment)
  qed
qed simp_all

text \<open>
  The test that \<^verbatim>\<open>getAnnotationAt\<close> makes on an annotation is the geometric criterion, for
  every position and every annotation.
\<close>

lemma hit_near: "hit nrm a \<longleftrightarrow> near nrm a"
proof (cases a)
  case (PenAnnotation b ps opacity)
  then show ?thesis by (simp add: pen_hit_iff)
next
  case (RectAnnotation b x y w h)
  then show ?thesis by (auto simp: in_span_def)
next
  case (ArrowAnnotation b x1 y1 x2 y2)
  with hit_segment [of nrm "(x1, y1)" "(x2, y2)"] show ?thesis by simp
next
  case (TextAnnotation b x y t)
  have "hit nrm a \<longleftrightarrow>
          (\<exists>px tx. fst nrm = Fin px \<and> x = Fin tx \<and> \<bar>px - tx\<bar> < tolerance)
          \<and> (\<exists>py ty. snd nrm = Fin py \<and> y = Fin ty \<and> \<bar>py - ty\<bar> < tolerance)"
    unfolding TextAnnotation hit.simps near_axis ..
  also have "\<dots> \<longleftrightarrow> near nrm a"
    unfolding TextAnnotation near.simps by (cases nrm) auto
  finally show ?thesis .
qed

text \<open>The outer loop.\<close>

lemma scan_Some:
  "scan nrm anns n = Some s \<longleftrightarrow>
     (\<exists>i<n. hit nrm (anns ! i) \<and> s = id_of (anns ! i)
        \<and> (\<forall>j<n. i < j \<longrightarrow> \<not> hit nrm (anns ! j)))"
proof (induction n)
  case 0
  then show ?case by simp
next
  case (Suc n)
  show ?case
  proof (cases "hit nrm (anns ! n)")
    case True
    have "(\<exists>i<Suc n. hit nrm (anns ! i) \<and> s = id_of (anns ! i)
             \<and> (\<forall>j<Suc n. i < j \<longrightarrow> \<not> hit nrm (anns ! j)))
          \<longleftrightarrow> s = id_of (anns ! n)"
    proof
      assume "\<exists>i<Suc n. hit nrm (anns ! i) \<and> s = id_of (anns ! i)
                \<and> (\<forall>j<Suc n. i < j \<longrightarrow> \<not> hit nrm (anns ! j))"
      then obtain i where i: "i < Suc n" "s = id_of (anns ! i)"
        "\<forall>j<Suc n. i < j \<longrightarrow> \<not> hit nrm (anns ! j)"
        by blast
      with True have "\<not> i < n" by auto
      with i(1) have "i = n" by simp
      with i(2) show "s = id_of (anns ! n)" by simp
    next
      assume "s = id_of (anns ! n)"
      with True show "\<exists>i<Suc n. hit nrm (anns ! i) \<and> s = id_of (anns ! i)
                \<and> (\<forall>j<Suc n. i < j \<longrightarrow> \<not> hit nrm (anns ! j))"
        by (intro exI [of _ n]) auto
    qed
    with True show ?thesis by auto
  next
    case False
    have "(\<exists>i<Suc n. hit nrm (anns ! i) \<and> s = id_of (anns ! i)
             \<and> (\<forall>j<Suc n. i < j \<longrightarrow> \<not> hit nrm (anns ! j)))
          \<longleftrightarrow> (\<exists>i<n. hit nrm (anns ! i) \<and> s = id_of (anns ! i)
             \<and> (\<forall>j<n. i < j \<longrightarrow> \<not> hit nrm (anns ! j)))"
      using False by (metis less_Suc_eq)
    with False Suc.IH show ?thesis by simp
  qed
qed

lemma scan_None: "scan nrm anns n = None \<longleftrightarrow> (\<forall>i<n. \<not> hit nrm (anns ! i))"
  by (induction n) (auto simp: less_Suc_eq)

text \<open>
  C4. \<^verbatim>\<open>getAnnotationAt\<close> goes through the AnnotationSet from its last element down and
  returns the id of the annotation with the greatest index among those whose geometry lies
  within the tolerance 0.02 of the position: the rectangle enlarged by the tolerance
  contains the position, the anchor of the text differs from it by less than the tolerance
  on both axes, a point of the segment of the arrow, or of a segment of the pen stroke, is
  at a Euclidean distance below the tolerance. It returns \<^verbatim>\<open>null\<close> exactly when no annotation
  is within the tolerance, as for a position with a coordinate NaN, which is near nothing.
  It returns one of the two for every input. For numbers the criterion of the rectangle and
  of the text reads as inequalities of real numbers.
\<close>

theorem getAnnotationAt_topmost:
  "(getAnnotationAt L anns clientX clientY = Some s \<longleftrightarrow>
      (\<exists>i<length anns. near (toNorm L clientX clientY) (anns ! i) \<and> s = id_of (anns ! i)
         \<and> (\<forall>j<length anns. i < j \<longrightarrow> \<not> near (toNorm L clientX clientY) (anns ! j))))
   \<and> (getAnnotationAt L anns clientX clientY = None \<longleftrightarrow>
      (\<forall>i<length anns. \<not> near (toNorm L clientX clientY) (anns ! i)))
   \<and> \<not> near (NaN, v) a \<and> \<not> near (u, NaN) a
   \<and> (near (Fin px, Fin py) (RectAnnotation b (Fin x) (Fin y) (Fin w) (Fin h)) \<longleftrightarrow>
        x - tolerance \<le> px \<and> px \<le> x + w + tolerance
        \<and> y - tolerance \<le> py \<and> py \<le> y + h + tolerance)
   \<and> (near (Fin px, Fin py) (TextAnnotation b (Fin x) (Fin y) t) \<longleftrightarrow>
        \<bar>px - x\<bar> < tolerance \<and> \<bar>py - y\<bar> < tolerance)
   \<and> (near (Fin px, Fin py) (ArrowAnnotation b (Fin x1) (Fin y1) (Fin x2) (Fin y2)) \<longleftrightarrow>
        (\<exists>t. 0 \<le> t \<and> t \<le> 1 \<and> euclid px py (on_segment x1 y1 x2 y2 t) < tolerance))"
proof (intro conjI)
  show "getAnnotationAt L anns clientX clientY = Some s \<longleftrightarrow>
      (\<exists>i<length anns. near (toNorm L clientX clientY) (anns ! i) \<and> s = id_of (anns ! i)
         \<and> (\<forall>j<length anns. i < j \<longrightarrow> \<not> near (toNorm L clientX clientY) (anns ! j)))"
    by (simp add: getAnnotationAt_def scan_Some hit_near)
  show "getAnnotationAt L anns clientX clientY = None \<longleftrightarrow>
      (\<forall>i<length anns. \<not> near (toNorm L clientX clientY) (anns ! i))"
    by (simp add: getAnnotationAt_def scan_None hit_near)
  show "\<not> near (NaN, v) a"
    by (cases a) (simp_all add: in_span_def near_segment_def)
  show "\<not> near (u, NaN) a"
    by (cases a) (simp_all add: in_span_def near_segment_def)
  show "near (Fin px, Fin py) (RectAnnotation b (Fin x) (Fin y) (Fin w) (Fin h)) \<longleftrightarrow>
        x - tolerance \<le> px \<and> px \<le> x + w + tolerance
        \<and> y - tolerance \<le> py \<and> py \<le> y + h + tolerance"
    by (simp add: in_span_def)
  show "near (Fin px, Fin py) (TextAnnotation b (Fin x) (Fin y) t) \<longleftrightarrow>
        \<bar>px - x\<bar> < tolerance \<and> \<bar>py - y\<bar> < tolerance"
    by simp
  show "near (Fin px, Fin py) (ArrowAnnotation b (Fin x1) (Fin y1) (Fin x2) (Fin y2)) \<longleftrightarrow>
        (\<exists>t. 0 \<le> t \<and> t \<le> 1 \<and> euclid px py (on_segment x1 y1 x2 y2 t) < tolerance)"
    by (simp add: near_segment_def)
qed

text \<open>
  C4, on examples. At \<open>(0.4, 0.4)\<close> the two rectangles and the arrow are within the
  tolerance, and the arrow, the last of them, is returned; at \<open>(0.4, 0.45)\<close> the arrow is
  too far, and the second rectangle is returned; at \<open>(0.85, 0.31)\<close> the second segment of
  the pen stroke is near; at \<open>(0.95, 0.05)\<close> nothing is, and nothing is near the position
  without coordinates that the page whose image has no extent gives.
\<close>

theorem getAnnotationAt_topmost_witness:
  "getAnnotationAt square_page sample_shapes 40 40 = Some ''r''
   \<and> getAnnotationAt square_page sample_shapes 40 45 = Some ''b''
   \<and> near (Fin 0.4, Fin 0.45) (sample_shapes ! 0)
   \<and> near (Fin 0.4, Fin 0.45) (sample_shapes ! 1)
   \<and> \<not> near (Fin 0.4, Fin 0.45) (sample_shapes ! 2)
   \<and> \<not> near (Fin 0.4, Fin 0.45) (sample_shapes ! 3)
   \<and> getAnnotationAt square_page sample_shapes 85 31 = Some ''p''
   \<and> getAnnotationAt square_page sample_shapes 95 5 = None
   \<and> getAnnotationAt unloaded_page sample_shapes 10 20 = None"
proof -
  note defs = sample_shapes_def box_def arrow_from_def stroke_def tolerance_def
    distanceToLine_def js_sqrt_less power2_eq_square Let_def
  note top = getAnnotationAt_topmost [THEN conjunct1]
  note none = getAnnotationAt_topmost [THEN conjunct2, THEN conjunct1]
  have len: "length sample_shapes = 4"
    by (simp add: sample_shapes_def)
  have ids: "id_of (sample_shapes ! 1) = ''b''" "id_of (sample_shapes ! 2) = ''r''"
    "id_of (sample_shapes ! 3) = ''p''"
    by (simp_all add: sample_shapes_def box_def arrow_from_def stroke_def id_of_def
          example_base_def)
  have four: "k = 0 \<or> k = 1 \<or> k = 2 \<or> k = 3" if "k < length sample_shapes" for k
    using that len by auto
  have n1: "toNorm square_page 40 40 = (Fin 0.4, Fin 0.4)"
    and n2: "toNorm square_page 40 45 = (Fin 0.4, Fin 0.45)"
    and n3: "toNorm square_page 85 31 = (Fin 0.85, Fin 0.31)"
    and n4: "toNorm square_page 95 5 = (Fin 0.95, Fin 0.05)"
    by (simp_all add: toNorm_square_page)
  have n5: "toNorm unloaded_page 10 20 = (NaN, NaN)"
    by (simp add: toNorm_def unloaded_page_def imageDims_def)
  have a: "near (Fin 0.4, Fin 0.4) (sample_shapes ! 2)"
    "\<not> near (Fin 0.4, Fin 0.4) (sample_shapes ! 3)"
    unfolding hit_near [symmetric] by (simp_all add: defs)
  have b: "near (Fin 0.4, Fin 0.45) (sample_shapes ! 0)"
    "near (Fin 0.4, Fin 0.45) (sample_shapes ! 1)"
    "\<not> near (Fin 0.4, Fin 0.45) (sample_shapes ! 2)"
    "\<not> near (Fin 0.4, Fin 0.45) (sample_shapes ! 3)"
    unfolding hit_near [symmetric] by (simp_all add: defs)
  have c: "near (Fin 0.85, Fin 0.31) (sample_shapes ! 3)"
    unfolding hit_near [symmetric] by (simp add: defs)
  have d: "\<not> near (Fin 0.95, Fin 0.05) (sample_shapes ! k)" if "k < length sample_shapes" for k
    unfolding hit_near [symmetric] using four [OF that] by (auto simp: defs)
  have e: "\<not> near (NaN, NaN) (sample_shapes ! k)" for k
    using getAnnotationAt_topmost [THEN conjunct2, THEN conjunct2, THEN conjunct1] .
  have "\<forall>j<length sample_shapes. 2 < j \<longrightarrow> \<not> near (Fin 0.4, Fin 0.4) (sample_shapes ! j)"
  proof (intro allI impI)
    fix j assume "j < length sample_shapes" "2 < j"
    with len have "j = 3" by simp
    with a(2) show "\<not> near (Fin 0.4, Fin 0.4) (sample_shapes ! j)" by simp
  qed
  with a(1) len ids(2)
  have "\<exists>i<length sample_shapes. near (toNorm square_page 40 40) (sample_shapes ! i)
         \<and> ''r'' = id_of (sample_shapes ! i)
         \<and> (\<forall>j<length sample_shapes. i < j \<longrightarrow>
               \<not> near (toNorm square_page 40 40) (sample_shapes ! j))"
    unfolding n1 by (intro exI [of _ 2]) simp
  then have r1: "getAnnotationAt square_page sample_shapes 40 40 = Some ''r''"
    using top [of square_page sample_shapes 40 40 "''r''"] by blast
  have "\<forall>j<length sample_shapes. 1 < j \<longrightarrow> \<not> near (Fin 0.4, Fin 0.45) (sample_shapes ! j)"
  proof (intro allI impI)
    fix j assume "j < length sample_shapes" "1 < j"
    with len have "j = 2 \<or> j = 3" by auto
    with b(3,4) show "\<not> near (Fin 0.4, Fin 0.45) (sample_shapes ! j)" by auto
  qed
  with b(2) len ids(1)
  have "\<exists>i<length sample_shapes. near (toNorm square_page 40 45) (sample_shapes ! i)
         \<and> ''b'' = id_of (sample_shapes ! i)
         \<and> (\<forall>j<length sample_shapes. i < j \<longrightarrow>
               \<not> near (toNorm square_page 40 45) (sample_shapes ! j))"
    unfolding n2 by (intro exI [of _ 1]) simp
  then have r2: "getAnnotationAt square_page sample_shapes 40 45 = Some ''b''"
    using top [of square_page sample_shapes 40 45 "''b''"] by blast
  have "\<forall>j<length sample_shapes. 3 < j \<longrightarrow> \<not> near (Fin 0.85, Fin 0.31) (sample_shapes ! j)"
    using len by simp
  with c len ids(3)
  have "\<exists>i<length sample_shapes. near (toNorm square_page 85 31) (sample_shapes ! i)
         \<and> ''p'' = id_of (sample_shapes ! i)
         \<and> (\<forall>j<length sample_shapes. i < j \<longrightarrow>
               \<not> near (toNorm square_page 85 31) (sample_shapes ! j))"
    unfolding n3 by (intro exI [of _ 3]) simp
  then have r3: "getAnnotationAt square_page sample_shapes 85 31 = Some ''p''"
    using top [of square_page sample_shapes 85 31 "''p''"] by blast
  from d have r4: "getAnnotationAt square_page sample_shapes 95 5 = None"
    using none [of square_page sample_shapes 95 5] unfolding n4 by blast
  from e have r5: "getAnnotationAt unloaded_page sample_shapes 10 20 = None"
    using none [of unloaded_page sample_shapes 10 20] unfolding n5 by blast
  from r1 r2 b r3 r4 r5 show ?thesis by simp
qed

subsection \<open>Deleting\<close>

lemma filter_removes_one:
  assumes "distinct (map f xs)" and "xs = ys @ a # zs"
  shows "filter (\<lambda>x. f x \<noteq> f a) xs = ys @ zs"
proof -
  from assms have "f a \<notin> f ` set ys" and "f a \<notin> f ` set zs"
    by auto
  then have "\<forall>x\<in>set ys. f x \<noteq> f a" and "\<forall>x\<in>set zs. f x \<noteq> f a"
    by (metis imageI)+
  then have "filter (\<lambda>x. f x \<noteq> f a) ys = ys" and "filter (\<lambda>x. f x \<noteq> f a) zs = zs"
    by (simp_all add: filter_id_conv)
  with assms(2) show ?thesis by simp
qed

lemma filter_by_id:
  assumes "distinct (map id_of anns)" and "i \<in> id_of ` set anns"
  shows "\<exists>xs a ys. anns = xs @ a # ys \<and> id_of a = i
           \<and> filter (\<lambda>x. id_of x \<noteq> i) anns = xs @ ys"
proof -
  from assms(2) obtain a where a: "a \<in> set anns" "id_of a = i" by auto
  from a(1) obtain xs ys where s: "anns = xs @ a # ys"
    by (auto simp: in_set_conv_decomp)
  from filter_removes_one [OF assms(1) s] a(2)
  have "filter (\<lambda>x. id_of x \<noteq> i) anns = xs @ ys" by simp
  with s a(2) show ?thesis by blast
qed

lemma scan_in_set: "scan nrm anns n = Some s \<Longrightarrow> n \<le> length anns \<Longrightarrow> s \<in> id_of ` set anns"
  by (induction n) (auto split: if_splits)

lemma getAnnotationAt_in_set:
  "getAnnotationAt L anns x y = Some s \<Longrightarrow> s \<in> id_of ` set anns"
  by (auto simp: getAnnotationAt_def dest: scan_in_set)

text \<open>
  C10. In an AnnotationSet whose ids are distinct, the eraser (on a hit), the button
  Delete Selected (with a selected annotation of the set) and the delete button of the
  annotations list each remove the one annotation with the id in question: the
  AnnotationSet is split around that annotation, and what is left is the part before it
  followed by the part after it, unchanged and in the same order.
\<close>

theorem delete_removes_exactly_one:
  assumes "distinct (map id_of (annotations e))"
  shows "(truthy (baseImage e) \<and> tool e = EraseTool
            \<and> getAnnotationAt L (annotations e) clientX clientY = Some hitId \<and> hitId \<noteq> [] \<longrightarrow>
            (\<exists>e' xs a ys. onPointerDown L clientX clientY stamp e = Inr e'
               \<and> annotations e = xs @ a # ys \<and> id_of a = hitId \<and> annotations e' = xs @ ys))
       \<and> (selectedId e = Some sel \<and> sel \<noteq> [] \<and> sel \<in> id_of ` set (annotations e) \<longrightarrow>
            (\<exists>xs a ys. annotations e = xs @ a # ys \<and> id_of a = sel
               \<and> annotations (removeSelected e) = xs @ ys))
       \<and> (aid \<in> id_of ` set (annotations e) \<longrightarrow>
            (\<exists>xs a ys. annotations e = xs @ a # ys \<and> id_of a = aid
               \<and> annotations (removeListed aid e) = xs @ ys))"
proof (intro conjI impI)
  assume h: "truthy (baseImage e) \<and> tool e = EraseTool
            \<and> getAnnotationAt L (annotations e) clientX clientY = Some hitId \<and> hitId \<noteq> []"
  then have "hitId \<in> id_of ` set (annotations e)"
    using getAnnotationAt_in_set by blast
  from filter_by_id [OF assms this] obtain xs a ys
    where s: "annotations e = xs @ a # ys" "id_of a = hitId"
      "filter (\<lambda>x. id_of x \<noteq> hitId) (annotations e) = xs @ ys"
    by blast
  from h s(3) have "\<exists>e'. onPointerDown L clientX clientY stamp e = Inr e' \<and> annotations e' = xs @ ys"
    by (simp add: onPointerDown_def erase_down_def pushHistory_def Let_def)
  with s(1,2) show "\<exists>e' xs a ys. onPointerDown L clientX clientY stamp e = Inr e'
               \<and> annotations e = xs @ a # ys \<and> id_of a = hitId \<and> annotations e' = xs @ ys"
    by blast
next
  assume h: "selectedId e = Some sel \<and> sel \<noteq> [] \<and> sel \<in> id_of ` set (annotations e)"
  from filter_by_id [OF assms] h obtain xs a ys
    where s: "annotations e = xs @ a # ys" "id_of a = sel"
      "filter (\<lambda>x. id_of x \<noteq> sel) (annotations e) = xs @ ys"
    by blast
  from h s(3) have "annotations (removeSelected e) = xs @ ys"
    by (simp add: removeSelected_def pushHistory_def Let_def)
  with s(1,2) show "\<exists>xs a ys. annotations e = xs @ a # ys \<and> id_of a = sel
               \<and> annotations (removeSelected e) = xs @ ys"
    by blast
next
  assume h: "aid \<in> id_of ` set (annotations e)"
  from filter_by_id [OF assms h] obtain xs a ys
    where s: "annotations e = xs @ a # ys" "id_of a = aid"
      "filter (\<lambda>x. id_of x \<noteq> aid) (annotations e) = xs @ ys"
    by blast
  from s(3) have "annotations (removeListed aid e) = xs @ ys"
    by (simp add: removeListed_def pushHistory_def Let_def)
  with s(1,2) show "\<exists>xs a ys. annotations e = xs @ a # ys \<and> id_of a = aid
               \<and> annotations (removeListed aid e) = xs @ ys"
    by blast
qed

theorem delete_removes_exactly_one_witness:
  "distinct (map id_of (annotations after_three))
   \<and> (\<exists>e'. onPointerDown square_page 50 50 ''4'' (after_three\<lparr>tool := EraseTool\<rparr>) = Inr e'
          \<and> annotations e' = [text_at ''1'' 0.1 0.1, text_at ''3'' 0.9 0.9])
   \<and> annotations (removeSelected after_three) = [text_at ''1'' 0.1 0.1, text_at ''2'' 0.5 0.5]
   \<and> annotations (removeListed (fresh_id ''1'') after_three)
       = [text_at ''2'' 0.5 0.5, text_at ''3'' 0.9 0.9]"
proof -
  let ?e = "after_three\<lparr>tool := EraseTool\<rparr>"
  have ids: "map id_of three_labels = [fresh_id ''1'', fresh_id ''2'', fresh_id ''3'']"
    by (simp add: three_labels_def text_at_def id_of_def)
  have d: "distinct (map id_of (annotations after_three))"
    and d': "distinct (map id_of (annotations ?e))"
    by (simp_all add: after_three_def ids fresh_id_def)
  have h: "getAnnotationAt square_page (annotations ?e) 50 50 = Some (fresh_id ''2'')"
    by (simp add: after_three_def three_labels_def text_at_def getAnnotationAt_def
          toNorm_square_page tolerance_def id_of_def)
  note T = delete_removes_exactly_one [OF d', where L = square_page and clientX = 50
      and clientY = 50 and hitId = "fresh_id ''2''" and stamp = "''4''"
      and sel = "fresh_id ''3''" and aid = "fresh_id ''1''"]
  have pre: "truthy (baseImage ?e) \<and> tool ?e = EraseTool
      \<and> getAnnotationAt square_page (annotations ?e) 50 50 = Some (fresh_id ''2'')
      \<and> fresh_id ''2'' \<noteq> []"
    using h by (simp add: after_three_def fresh_id_def)
  from T pre obtain e' xs a ys where r: "onPointerDown square_page 50 50 ''4'' ?e = Inr e'"
    "annotations ?e = xs @ a # ys" "id_of a = fresh_id ''2''" "annotations e' = xs @ ys"
    by blast
  have "annotations e' = [text_at ''1'' 0.1 0.1, text_at ''3'' 0.9 0.9]"
    using r(1) [symmetric] h
    by (simp add: onPointerDown_def erase_down_def pushHistory_def after_three_def
          three_labels_def toNorm_square_page text_at_def id_of_def fresh_id_def)
  with r(1) have erase: "\<exists>e'. onPointerDown square_page 50 50 ''4'' ?e = Inr e'
          \<and> annotations e' = [text_at ''1'' 0.1 0.1, text_at ''3'' 0.9 0.9]"
    by blast
  have sel: "annotations (removeSelected after_three)
       = [text_at ''1'' 0.1 0.1, text_at ''2'' 0.5 0.5]"
    by (simp add: removeSelected_def pushHistory_def after_three_def three_labels_def
          text_at_def id_of_def fresh_id_def)
  have lst: "annotations (removeListed (fresh_id ''1'') after_three)
       = [text_at ''2'' 0.5 0.5, text_at ''3'' 0.9 0.9]"
    by (simp add: removeListed_def pushHistory_def after_three_def three_labels_def
          text_at_def id_of_def fresh_id_def)
  from d erase sel lst show ?thesis by blast
qed

subsection \<open>Commits and the history\<close>

text \<open>Facts about the handlers that the claims on the history and on drags share.\<close>

lemma find_by_id:
  "s \<in> id_of ` set anns \<Longrightarrow> \<exists>a. find (\<lambda>x. id_of x = s) anns = Some a"
  by (induction anns) auto

lemma onPointerMove_history:
  "undoStack (onPointerMove L x y e) = undoStack e
   \<and> redoStack (onPointerMove L x y e) = redoStack e
   \<and> (drawing e = None \<longrightarrow> drawing (onPointerMove L x y e) = None)"
  by (auto simp: onPointerMove_def Let_def split: option.splits)

lemma run_moves_history:
  "run (moves ms) e = Inr e' \<Longrightarrow>
     undoStack e' = undoStack e \<and> redoStack e' = redoStack e
     \<and> (drawing e = None \<longrightarrow> drawing e' = None)"
proof (induction ms arbitrary: e)
  case Nil
  then show ?case by (simp add: moves_def)
next
  case (Cons m ms)
  obtain L x y where m: "m = (L, x, y)" by (cases m)
  with Cons.prems have r: "run (moves ms) (onPointerMove L x y e) = Inr e'"
    by (simp add: moves_def)
  from onPointerMove_history [of L x y e] Cons.IH [OF r] show ?case by simp
qed

lemma run_moves_total: "\<exists>e'. run (moves ms) e = Inr e'"
proof (induction ms arbitrary: e)
  case Nil
  then show ?case by (simp add: moves_def)
next
  case (Cons m ms)
  obtain L x y where m: "m = (L, x, y)" by (cases m)
  from Cons.IH [of "onPointerMove L x y e"] m show ?case
    by (simp add: moves_def)
qed

lemma run_append:
  "run (as @ bs) e = (case run as e of Inl f \<Rightarrow> Inl f | Inr e' \<Rightarrow> run bs e')"
  by (induction as arbitrary: e) (auto split: sum.splits)

lemma select_down_history:
  assumes "truthy (baseImage e)" and "tool e = SelectTool"
    and "truthy (getAnnotationAt L (annotations e) x y)"
    and "onPointerDown L x y stamp e = Inr e1"
  shows "undoStack e1 = undoStack e @ [annotations e] \<and> redoStack e1 = []
         \<and> annotations e1 = annotations e \<and> drawing e1 = drawing e \<and> isDragging e1
         \<and> baseImage e1 = baseImage e"
  using assms
  by (auto simp: onPointerDown_def select_down_def Let_def split: option.splits)

lemma select_down_starts:
  assumes "truthy (baseImage e)" and "tool e = SelectTool"
    and h: "getAnnotationAt L (annotations e) x y = Some hitId" and "hitId \<noteq> []"
    and c: "cont L \<noteq> None"
  shows "\<exists>ea dr. onPointerDown L x y stamp e = Inr ea \<and> pushed e ea (annotations e)
           \<and> isDragging ea \<and> selectedId ea = Some hitId
           \<and> dragRef ea = Some dr \<and> drag_id dr = hitId"
proof -
  from h have "hitId \<in> id_of ` set (annotations e)"
    by (rule getAnnotationAt_in_set)
  then obtain a where a: "find (\<lambda>x. id_of x = hitId) (annotations e) = Some a"
    using find_by_id by blast
  from c obtain rect where rect: "cont L = Some rect" by auto
  have d: "drag_id (start_drag L a hitId lx ly nrm) = hitId" for lx ly nrm
    by (cases a) (simp_all add: Let_def split: option.splits prod.splits)
  from assms(1,2,4) h a rect d show ?thesis
    by (simp add: onPointerDown_def select_down_def Let_def pushed_def)
qed

lemma onPointerUp_idle:
  "drawing e = None \<Longrightarrow>
     undoStack (onPointerUp stamp e) = undoStack e \<and> redoStack (onPointerUp stamp e) = redoStack e
     \<and> annotations (onPointerUp stamp e) = annotations e"
  by (simp add: onPointerUp_def)

lemma perform_change_pushes:
  assumes "commits a" and "perform a e = Inr e'" and "annotations e' \<noteq> annotations e"
  shows "undoStack e' = undoStack e @ [annotations e] \<and> redoStack e' = []"
  using assms
  by (cases a)
     (auto simp: onPointerDown_def onPointerUp_def select_down_def
        erase_down_def pushHistory_def clearAll_def removeImage_def
        updateSelectedAnnotation_def removeSelected_def removeListed_def commit_drawing_def
        Let_def
      simp del: js_sub.simps
      split: if_splits option.splits tool.splits prod.splits)

lemma drag_gesture_history:
  assumes "truthy (baseImage e)" and "tool e = SelectTool" and "drawing e = None"
    and "truthy (getAnnotationAt L (annotations e) x y)"
    and "run (PointerDown L x y stamp # moves ms @ [PointerUp stamp']) e = Inr e3"
  shows "undoStack e3 = undoStack e @ [annotations e] \<and> redoStack e3 = []"
proof -
  from assms(5) obtain e1 where e1: "onPointerDown L x y stamp e = Inr e1"
    and r: "run (moves ms @ [PointerUp stamp']) e1 = Inr e3"
    by (auto split: sum.splits)
  from r obtain e2 where e2: "run (moves ms) e1 = Inr e2" and e3: "e3 = onPointerUp stamp' e2"
    by (auto simp: run_append split: sum.splits)
  from select_down_history [OF assms(1,2,4) e1] assms(3)
  have s1: "undoStack e1 = undoStack e @ [annotations e]" "redoStack e1 = []" "drawing e1 = None"
    by simp_all
  from run_moves_history [OF e2] s1
  have s2: "undoStack e2 = undoStack e @ [annotations e]" "redoStack e2 = []" "drawing e2 = None"
    by simp_all
  from onPointerUp_idle [OF s2(3), of stamp'] s2 e3 show ?thesis by simp
qed

text \<open>The commits of the operations, one by one.\<close>

lemma text_down_pushes:
  assumes "truthy (baseImage e)" and "tool e = TextTool"
  shows "\<exists>ea. onPointerDown L x y stamp e = Inr ea
           \<and> pushed e ea
               (annotations e @
                  [TextAnnotation
                     \<lparr>ann_id = fresh_id stamp, ann_color = cur_color e, ann_size = cur_size e,
                      linkedFieldId = None\<rparr>
                     (fst (toNorm L x y)) (snd (toNorm L x y)) ''Click to edit''])"
  using assms by (simp add: onPointerDown_def pushHistory_def pushed_def Let_def)

lemma erase_down_pushes:
  assumes "truthy (baseImage e)" and "tool e = EraseTool"
    and "getAnnotationAt L (annotations e) x y = Some hitId" and "hitId \<noteq> []"
  shows "\<exists>ea. onPointerDown L x y stamp e = Inr ea
           \<and> pushed e ea (filter (\<lambda>a. id_of a \<noteq> hitId) (annotations e))"
  using assms by (simp add: onPointerDown_def erase_down_def pushHistory_def pushed_def Let_def)

lemma pen_up_pushes:
  assumes "truthy (baseImage e)" and "drawing e = Some d" and "dtype d = PenTool"
    and "points d = Some ps" and "2 \<le> length ps"
  shows "pushed e (onPointerUp stamp e)
           (annotations e @
              [PenAnnotation
                 \<lparr>ann_id = fresh_id stamp, ann_color = cur_color e, ann_size = cur_size e,
                  linkedFieldId = None\<rparr> ps None])"
proof -
  from assms(5) have "1 < length ps" by simp
  with assms(1-4) show ?thesis
    by (simp add: onPointerUp_def commit_drawing_def pushHistory_def pushed_def Let_def)
qed

lemma rect_up_pushes:
  assumes "truthy (baseImage e)" and "drawing e = Some d" and "dtype d = RectTool"
    and "currentX d = Some cx" and "currentY d = Some cy"
    and "js_lt (Fin 0.01) (js_abs (js_sub cx (startX d)))"
    and "js_lt (Fin 0.01) (js_abs (js_sub cy (startY d)))"
  shows "pushed e (onPointerUp stamp e)
           (annotations e @
              [RectAnnotation
                 \<lparr>ann_id = fresh_id stamp, ann_color = cur_color e, ann_size = cur_size e,
                  linkedFieldId = None\<rparr>
                 (js_min (startX d) cx) (js_min (startY d) cy)
                 (js_abs (js_sub cx (startX d))) (js_abs (js_sub cy (startY d)))])"
  using assms
  by (simp add: onPointerUp_def commit_drawing_def pushHistory_def pushed_def Let_def
        del: js_sub.simps)

lemma arrow_up_pushes:
  assumes "truthy (baseImage e)" and "drawing e = Some d" and "dtype d = ArrowTool"
    and "currentX d = Some cx" and "currentY d = Some cy"
    and "js_lt (Fin 0.02)
           (js_sqrt (js_add (js_pow2 (js_sub cx (startX d)))
                            (js_pow2 (js_sub cy (startY d)))))"
  shows "pushed e (onPointerUp stamp e)
           (annotations e @
              [ArrowAnnotation
                 \<lparr>ann_id = fresh_id stamp, ann_color = cur_color e, ann_size = cur_size e,
                  linkedFieldId = None\<rparr>
                 (startX d) (startY d) cx cy])"
  using assms
  by (simp add: onPointerUp_def commit_drawing_def pushHistory_def pushed_def Let_def
        del: js_sub.simps)

lemma update_pushes:
  assumes "selectedId e = Some sel" and "sel \<noteq> []"
    and "findIndex (\<lambda>a. id_of a = sel) (annotations e) = Some k"
  shows "pushed e (updateSelectedAnnotation part e)
           ((annotations e)[k := spread (annotations e ! k) part])"
  using assms by (simp add: updateSelectedAnnotation_def pushHistory_def pushed_def)

lemma remove_pushes:
  "(selectedId e = Some sel \<and> sel \<noteq> [] \<longrightarrow>
      pushed e (removeSelected e) (filter (\<lambda>a. id_of a \<noteq> sel) (annotations e)))
   \<and> pushed e (removeListed aid e) (filter (\<lambda>a. id_of a \<noteq> aid) (annotations e))
   \<and> (annotations e \<noteq> [] \<longrightarrow> pushed e (clearAll e) [])
   \<and> pushed e (removeImage e) []"
  by (simp add: removeSelected_def removeListed_def clearAll_def removeImage_def
        pushHistory_def pushed_def Let_def)

text \<open>
  C6. Every commit-producing operation pushes the AnnotationSet of before the operation on
  the undo stack, empties the redo stack and applies the new set. Operation by operation,
  each under the condition on which it commits: the text tool creates a label on
  pointer-down; pointer-up commits the pen stroke, the rectangle or the arrow that was
  drawn; the eraser deletes the annotation it hits; Delete Selected and the delete button
  of the annotations list delete an annotation; Clear empties a set that is not empty;
  removing the image empties the set; an edit of the selected annotation (text, colour,
  size, linked field) replaces it. Every event of the commit class that changes the
  AnnotationSet has pushed the set of before. A pointer-down of the select tool on an
  annotation starts a drag: it pushes the AnnotationSet, which it leaves as it is. The
  whole drag gesture (that pointer-down, any number of pointer-moves, pointer-up) leaves
  that one entry on the undo stack, and each pointer-move of a drag writes the updated
  annotation into the AnnotationSet and leaves both stacks as they are.
\<close>

theorem commit_pushes_snapshot_once:
  "(truthy (baseImage e) \<and> tool e = TextTool \<longrightarrow>
      (\<exists>ea. onPointerDown L x y stamp e = Inr ea
         \<and> pushed e ea
             (annotations e @
                [TextAnnotation
                   \<lparr>ann_id = fresh_id stamp, ann_color = cur_color e, ann_size = cur_size e,
                    linkedFieldId = None\<rparr>
                   (fst (toNorm L x y)) (snd (toNorm L x y)) ''Click to edit''])))
   \<and> (truthy (baseImage e) \<and> drawing e = Some d \<and> dtype d = PenTool
        \<and> points d = Some ps \<and> 2 \<le> length ps \<longrightarrow>
        pushed e (onPointerUp stamp e)
          (annotations e @
             [PenAnnotation
                \<lparr>ann_id = fresh_id stamp, ann_color = cur_color e, ann_size = cur_size e,
                 linkedFieldId = None\<rparr> ps None]))
   \<and> (truthy (baseImage e) \<and> drawing e = Some d \<and> dtype d = RectTool
        \<and> currentX d = Some cx \<and> currentY d = Some cy
        \<and> js_lt (Fin 0.01) (js_abs (js_sub cx (startX d)))
        \<and> js_lt (Fin 0.01) (js_abs (js_sub cy (startY d))) \<longrightarrow>
        pushed e (onPointerUp stamp e)
          (annotations e @
             [RectAnnotation
                \<lparr>ann_id = fresh_id stamp, ann_color = cur_color e, ann_size = cur_size e,
                 linkedFieldId = None\<rparr>
                (js_min (startX d) cx) (js_min (startY d) cy)
                (js_abs (js_sub cx (startX d))) (js_abs (js_sub cy (startY d)))]))
   \<and> (truthy (baseImage e) \<and> drawing e = Some d \<and> dtype d = ArrowTool
        \<and> currentX d = Some cx \<and> currentY d = Some cy
        \<and> js_lt (Fin 0.02)
            (js_sqrt (js_add (js_pow2 (js_sub cx (startX d)))
                             (js_pow2 (js_sub cy (startY d))))) \<longrightarrow>
        pushed e (onPointerUp stamp e)
          (annotations e @
             [ArrowAnnotation
                \<lparr>ann_id = fresh_id stamp, ann_color = cur_color e, ann_size = cur_size e,
                 linkedFieldId = None\<rparr>
                (startX d) (startY d) cx cy]))
   \<and> (truthy (baseImage e) \<and> tool e = EraseTool
        \<and> getAnnotationAt L (annotations e) x y = Some hitId \<and> hitId \<noteq> [] \<longrightarrow>
        (\<exists>ea. onPointerDown L x y stamp e = Inr ea
           \<and> pushed e ea (filter (\<lambda>a. id_of a \<noteq> hitId) (annotations e))))
   \<and> (selectedId e = Some sel \<and> sel \<noteq> [] \<longrightarrow>
        pushed e (removeSelected e) (filter (\<lambda>a. id_of a \<noteq> sel) (annotations e)))
   \<and> pushed e (removeListed aid e) (filter (\<lambda>a. id_of a \<noteq> aid) (annotations e))
   \<and> (annotations e \<noteq> [] \<longrightarrow> pushed e (clearAll e) [])
   \<and> pushed e (removeImage e) []
   \<and> (selectedId e = Some sel \<and> sel \<noteq> []
        \<and> findIndex (\<lambda>a. id_of a = sel) (annotations e) = Some k \<longrightarrow>
        pushed e (updateSelectedAnnotation part e)
          ((annotations e)[k := spread (annotations e ! k) part]))
   \<and> (commits a \<and> perform a e = Inr eb \<and> annotations eb \<noteq> annotations e \<longrightarrow>
        undoStack eb = undoStack e @ [annotations e] \<and> redoStack eb = [])
   \<and> (truthy (baseImage e) \<and> tool e = SelectTool
        \<and> getAnnotationAt L (annotations e) x y = Some hitId \<and> hitId \<noteq> []
        \<and> cont L \<noteq> None \<longrightarrow>
        (\<exists>ea dr. onPointerDown L x y stamp e = Inr ea \<and> pushed e ea (annotations e)
           \<and> isDragging ea \<and> selectedId ea = Some hitId
           \<and> dragRef ea = Some dr \<and> drag_id dr = hitId))
   \<and> (truthy (baseImage e) \<and> tool e = SelectTool \<and> drawing e = None
        \<and> truthy (getAnnotationAt L (annotations e) x y)
        \<and> run (PointerDown L x y stamp # moves ms @ [PointerUp stamp']) e = Inr ec \<longrightarrow>
        undoStack ec = undoStack e @ [annotations e] \<and> redoStack ec = [])
   \<and> (dragging e dr idx \<longrightarrow>
        annotations (onPointerMove L' x' y' e)
          = (annotations e)[idx := updated dr (toNorm L' x' y') (annotations e ! idx)]
        \<and> undoStack (onPointerMove L' x' y' e) = undoStack e
        \<and> redoStack (onPointerMove L' x' y' e) = redoStack e)"
proof (intro conjI impI)
  assume "truthy (baseImage e) \<and> tool e = TextTool"
  then show "\<exists>ea. onPointerDown L x y stamp e = Inr ea
         \<and> pushed e ea
             (annotations e @
                [TextAnnotation
                   \<lparr>ann_id = fresh_id stamp, ann_color = cur_color e, ann_size = cur_size e,
                    linkedFieldId = None\<rparr>
                   (fst (toNorm L x y)) (snd (toNorm L x y)) ''Click to edit''])"
    using text_down_pushes by blast
next
  assume "truthy (baseImage e) \<and> drawing e = Some d \<and> dtype d = PenTool
        \<and> points d = Some ps \<and> 2 \<le> length ps"
  then show "pushed e (onPointerUp stamp e)
          (annotations e @
             [PenAnnotation
                \<lparr>ann_id = fresh_id stamp, ann_color = cur_color e, ann_size = cur_size e,
                 linkedFieldId = None\<rparr> ps None])"
    using pen_up_pushes by blast
next
  assume "truthy (baseImage e) \<and> drawing e = Some d \<and> dtype d = RectTool
        \<and> currentX d = Some cx \<and> currentY d = Some cy
        \<and> js_lt (Fin 0.01) (js_abs (js_sub cx (startX d)))
        \<and> js_lt (Fin 0.01) (js_abs (js_sub cy (startY d)))"
  then show "pushed e (onPointerUp stamp e)
          (annotations e @
             [RectAnnotation
                \<lparr>ann_id = fresh_id stamp, ann_color = cur_color e, ann_size = cur_size e,
                 linkedFieldId = None\<rparr>
                (js_min (startX d) cx) (js_min (startY d) cy)
                (js_abs (js_sub cx (startX d))) (js_abs (js_sub cy (startY d)))])"
    using rect_up_pushes by blast
next
  assume "truthy (baseImage e) \<and> drawing e = Some d \<and> dtype d = ArrowTool
        \<and> currentX d = Some cx \<and> currentY d = Some cy
        \<and> js_lt (Fin 0.02)
            (js_sqrt (js_add (js_pow2 (js_sub cx (startX d)))
                             (js_pow2 (js_sub cy (startY d)))))"
  then show "pushed e (onPointerUp stamp e)
          (annotations e @
             [ArrowAnnotation
                \<lparr>ann_id = fresh_id stamp, ann_color = cur_color e, ann_size = cur_size e,
                 linkedFieldId = None\<rparr>
                (startX d) (startY d) cx cy])"
    using arrow_up_pushes by blast
next
  assume "truthy (baseImage e) \<and> tool e = EraseTool
        \<and> getAnnotationAt L (annotations e) x y = Some hitId \<and> hitId \<noteq> []"
  then show "\<exists>ea. onPointerDown L x y stamp e = Inr ea
           \<and> pushed e ea (filter (\<lambda>a. id_of a \<noteq> hitId) (annotations e))"
    using erase_down_pushes by blast
next
  assume "selectedId e = Some sel \<and> sel \<noteq> []"
  then show "pushed e (removeSelected e) (filter (\<lambda>a. id_of a \<noteq> sel) (annotations e))"
    using remove_pushes by blast
next
  show "pushed e (removeListed aid e) (filter (\<lambda>a. id_of a \<noteq> aid) (annotations e))"
    using remove_pushes by blast
next
  assume "annotations e \<noteq> []"
  then show "pushed e (clearAll e) []"
    using remove_pushes by blast
next
  show "pushed e (removeImage e) []"
    using remove_pushes by blast
next
  assume "selectedId e = Some sel \<and> sel \<noteq> []
        \<and> findIndex (\<lambda>a. id_of a = sel) (annotations e) = Some k"
  then show "pushed e (updateSelectedAnnotation part e)
          ((annotations e)[k := spread (annotations e ! k) part])"
    using update_pushes by blast
next
  assume "commits a \<and> perform a e = Inr eb \<and> annotations eb \<noteq> annotations e"
  then have "undoStack eb = undoStack e @ [annotations e] \<and> redoStack eb = []"
    using perform_change_pushes by blast
  then show "undoStack eb = undoStack e @ [annotations e]" and "redoStack eb = []"
    by simp_all
next
  assume "truthy (baseImage e) \<and> tool e = SelectTool
        \<and> getAnnotationAt L (annotations e) x y = Some hitId \<and> hitId \<noteq> []
        \<and> cont L \<noteq> None"
  then show "\<exists>ea dr. onPointerDown L x y stamp e = Inr ea \<and> pushed e ea (annotations e)
           \<and> isDragging ea \<and> selectedId ea = Some hitId
           \<and> dragRef ea = Some dr \<and> drag_id dr = hitId"
    using select_down_starts by blast
next
  assume "truthy (baseImage e) \<and> tool e = SelectTool \<and> drawing e = None
        \<and> truthy (getAnnotationAt L (annotations e) x y)
        \<and> run (PointerDown L x y stamp # moves ms @ [PointerUp stamp']) e = Inr ec"
  then have "undoStack ec = undoStack e @ [annotations e] \<and> redoStack ec = []"
    using drag_gesture_history by blast
  then show "undoStack ec = undoStack e @ [annotations e]" and "redoStack ec = []"
    by simp_all
next
  assume d: "dragging e dr idx"
  show "annotations (onPointerMove L' x' y' e)
          = (annotations e)[idx := updated dr (toNorm L' x' y') (annotations e ! idx)]"
    and "undoStack (onPointerMove L' x' y' e) = undoStack e"
    and "redoStack (onPointerMove L' x' y' e) = redoStack e"
    by (simp_all add: drag_move [OF d])
qed

text \<open>
  C6, on examples: a rectangle is grabbed inside and dragged by two pointer-moves, and the
  gesture leaves one entry on the undo stack, the AnnotationSet of before the gesture;
  after three labels were placed, a fourth label, a change of the colour of the selected
  label, Clear and removing the image each push the three labels.
\<close>

theorem commit_pushes_snapshot_once_witness:
  "run (PointerDown square_page 35 35 ''0''
          # moves [(square_page, 45, 45), (square_page, 55, 55)] @ [PointerUp ''0''])
       (mounted (Some ''scan-1'') [box ''r'' 0.2 0.2 0.3 0.3])
     = Inr ((mounted (Some ''scan-1'') [box ''r'' 0.4 0.4 0.3 0.3])
              \<lparr>selectedId := Some ''r'', undoStack := [[box ''r'' 0.2 0.2 0.3 0.3]]\<rparr>)
   \<and> (\<exists>ea. onPointerDown square_page 30 70 ''4'' after_three = Inr ea
          \<and> annotations ea = three_labels @ [text_at ''4'' 0.3 0.7]
          \<and> undoStack ea = undoStack after_three @ [three_labels]
          \<and> redoStack ea = [])
   \<and> pushed after_three (updateSelectedAnnotation (PColor ''#000000'') after_three)
        [text_at ''1'' 0.1 0.1, text_at ''2'' 0.5 0.5,
         spread (text_at ''3'' 0.9 0.9) (PColor ''#000000'')]
   \<and> pushed after_three (clearAll after_three) []
   \<and> pushed after_three (removeImage after_three) []
   \<and> undoStack (removeImage after_three) = undoStack after_three @ [three_labels]"
proof -
  let ?r = "box ''r'' 0.2 0.2 0.3 0.3"
  let ?g = "PointerDown square_page 35 35 ''0''
          # moves [(square_page, 45, 45), (square_page, 55, 55)] @ [PointerUp ''0'']"
  let ?e3 = "(mounted (Some ''scan-1'') [box ''r'' 0.4 0.4 0.3 0.3])
              \<lparr>selectedId := Some ''r'', undoStack := [[?r]]\<rparr>"
  have g: "run ?g (mounted (Some ''scan-1'') [?r]) = Inr ?e3"
    by (simp add: moves_def mounted_def onPointerDown_def select_down_def
        getAnnotationAt_def toNorm_square_page cont_square_page fromNorm_square_page
        box_def example_base_def id_of_def tolerance_def js_hypot_less Let_def
        onPointerMove_def onPointerUp_def updated_def clamp_def)
  have h: "truthy (getAnnotationAt square_page (annotations (mounted (Some ''scan-1'') [?r])) 35 35)"
    by (simp add: mounted_def getAnnotationAt_def toNorm_square_page box_def tolerance_def
          id_of_def example_base_def)
  note T = commit_pushes_snapshot_once [where e = "mounted (Some ''scan-1'') [?r]"
      and L = square_page and x = 35 and y = 35 and stamp = "''0''" and stamp' = "''0''"
      and ms = "[(square_page, 45, 45), (square_page, 55, 55)]" and ec = ?e3]
  from T [THEN conjunct2, THEN conjunct2, THEN conjunct2, THEN conjunct2, THEN conjunct2, THEN conjunct2, THEN conjunct2, THEN conjunct2, THEN conjunct2, THEN conjunct2, THEN conjunct2, THEN conjunct2, THEN conjunct1] g h
  have once: "undoStack ?e3 = undoStack (mounted (Some ''scan-1'') [?r]) @ [[?r]]"
    by (simp add: mounted_def)
  note U = commit_pushes_snapshot_once [where e = after_three and L = square_page
      and x = 30 and y = 70 and stamp = "''4''" and sel = "fresh_id ''3''" and k = 2
      and part = "PColor ''#000000''"]
  have a: "annotations after_three = three_labels" "annotations after_three \<noteq> []"
    "truthy (baseImage after_three)" "tool after_three = TextTool"
    "selectedId after_three = Some (fresh_id ''3'')" "fresh_id ''3'' \<noteq> []"
    "cur_color after_three = ''#e11d48''" "cur_size after_three = 3"
    by (simp_all add: after_three_def three_labels_def fresh_id_def)
  have f: "findIndex (\<lambda>a. id_of a = fresh_id ''3'') (annotations after_three) = Some 2"
    by (simp add: after_three_def three_labels_def text_at_def id_of_def fresh_id_def)
  from U [THEN conjunct1] a(3,4)
  obtain ea where ea: "onPointerDown square_page 30 70 ''4'' after_three = Inr ea"
    "pushed after_three ea
       (annotations after_three @
          [TextAnnotation
             \<lparr>ann_id = fresh_id ''4'', ann_color = cur_color after_three,
              ann_size = cur_size after_three, linkedFieldId = None\<rparr>
             (fst (toNorm square_page 30 70)) (snd (toNorm square_page 30 70))
             ''Click to edit''])"
    by blast
  from ea(2) a have "annotations ea = three_labels @ [text_at ''4'' 0.3 0.7]
          \<and> undoStack ea = undoStack after_three @ [three_labels]
          \<and> redoStack ea = []"
    by (simp add: pushed_def text_at_def toNorm_square_page)
  with ea(1) have fourth: "\<exists>ea. onPointerDown square_page 30 70 ''4'' after_three = Inr ea
          \<and> annotations ea = three_labels @ [text_at ''4'' 0.3 0.7]
          \<and> undoStack ea = undoStack after_three @ [three_labels]
          \<and> redoStack ea = []"
    by blast
  from U [THEN conjunct2, THEN conjunct2, THEN conjunct2, THEN conjunct2, THEN conjunct2, THEN conjunct2, THEN conjunct2, THEN conjunct2, THEN conjunct2, THEN conjunct1] a(5,6) f
  have "pushed after_three (updateSelectedAnnotation (PColor ''#000000'') after_three)
        ((annotations after_three)[2 := spread (annotations after_three ! 2) (PColor ''#000000'')])"
    by blast
  then have upd: "pushed after_three (updateSelectedAnnotation (PColor ''#000000'') after_three)
        [text_at ''1'' 0.1 0.1, text_at ''2'' 0.5 0.5,
         spread (text_at ''3'' 0.9 0.9) (PColor ''#000000'')]"
    by (simp add: after_three_def three_labels_def)
  from U [THEN conjunct2, THEN conjunct2, THEN conjunct2, THEN conjunct2, THEN conjunct2, THEN conjunct2, THEN conjunct2, THEN conjunct1] a(2)
  have clr: "pushed after_three (clearAll after_three) []"
    by blast
  from U [THEN conjunct2, THEN conjunct2, THEN conjunct2, THEN conjunct2, THEN conjunct2, THEN conjunct2, THEN conjunct2, THEN conjunct2, THEN conjunct1]
  have rem: "pushed after_three (removeImage after_three) []" .
  from rem a have "undoStack (removeImage after_three) = undoStack after_three @ [three_labels]"
    by (simp add: pushed_def)
  with g once fourth upd clr rem show ?thesis by simp
qed

end
